theory Spec2Isabelle
  imports Main "HOL-Library.Word" "HOL-Library.Sublist"
begin

section \<open>C and GLib primitives used by the sources\<close>

text \<open>
  The three source files are C over GLib. \<open>guint\<close> and \<open>gint\<close> are 32-bit machine
  integers; a \<open>gint\<close> is read with \<open>sint\<close>, and a conversion between the two keeps
  the bits. A nullable \<open>gchar *\<close> is a \<open>string option\<close> (\<open>None\<close> is \<open>NULL\<close>).
\<close>

type_synonym guint = "32 word"
type_synonym gint = "32 word"

text \<open>\<open>isspace\<close> / \<open>g_ascii_isspace\<close> in the C locale.\<close>

definition isspace :: "char \<Rightarrow> bool" where
  "isspace c = (c = CHR '' '' \<or> c = CHR 0x09 \<or> c = CHR 0x0A \<or> c = CHR 0x0B
                \<or> c = CHR 0x0C \<or> c = CHR 0x0D)"

definition is_digit :: "char \<Rightarrow> bool" where
  "is_digit c = ((48::nat) \<le> of_char c \<and> of_char c \<le> (57::nat))"

definition digit_val :: "char \<Rightarrow> nat" where
  "digit_val c = of_char c - 48"

text \<open>The decimal digits at the front of a string, accumulated as \<open>strtol\<close> does.\<close>

fun parse_digits :: "nat \<Rightarrow> string \<Rightarrow> nat" where
  "parse_digits acc [] = acc"
| "parse_digits acc (c # cs) =
     (if is_digit c then parse_digits (acc * 10 + digit_val c) cs else acc)"

definition strtol_value :: "string \<Rightarrow> int" where
  "strtol_value s =
     (case dropWhile isspace s of
        [] \<Rightarrow> 0
      | c # cs \<Rightarrow>
          if c = CHR ''-'' then - int (parse_digits 0 cs)
          else if c = CHR ''+'' then int (parse_digits 0 cs)
          else int (parse_digits 0 (c # cs)))"

text \<open>
  \<open>atoi (s)\<close> is \<open>(int) strtol (s, NULL, 10)\<close>: leading white space, an optional sign,
  then digits; 0 when no digit follows. A value outside the range of \<open>long\<close> is clamped
  by \<open>strtol\<close> (\<open>long\<close> is taken as 32 bits here, the armhf target of this tree);
  the C standard leaves that case undefined, and nothing below depends on it.
\<close>

definition atoi :: "string \<Rightarrow> gint" where
  "atoi s = word_of_int (max (- (2 ^ 31)) (min (2 ^ 31 - 1) (strtol_value s)))"

text \<open>\<open>g_strstrip\<close>: leading and trailing white space removed.\<close>

definition g_strstrip :: "string \<Rightarrow> string" where
  "g_strstrip s = rev (dropWhile isspace (rev (dropWhile isspace s)))"

text \<open>\<open>g_str_has_prefix (str, prefix)\<close>.\<close>

definition g_str_has_prefix :: "string \<Rightarrow> string \<Rightarrow> bool" where
  "g_str_has_prefix str pre = (take (length pre) str = pre)"

text \<open>
  \<open>g_strsplit (string, delimiter, max_tokens)\<close> for the one-character delimiters the
  sources pass. The empty string gives the empty vector; otherwise the string is cut at
  each delimiter until \<open>max_tokens\<close> pieces exist, the last piece taking the remainder;
  \<open>max_tokens < 1\<close> means no limit.
\<close>

fun split_all :: "char \<Rightarrow> string \<Rightarrow> string list" where
  "split_all d [] = [[]]"
| "split_all d (c # cs) =
     (if c = d then [] # split_all d cs
      else (case split_all d cs of [] \<Rightarrow> [[c]] | p # ps \<Rightarrow> (c # p) # ps))"

fun split_max :: "char \<Rightarrow> nat \<Rightarrow> string \<Rightarrow> string list" where
  "split_max d n [] = [[]]"
| "split_max d n (c # cs) =
     (if c = d \<and> 1 < n then [] # split_max d (n - 1) cs
      else (case split_max d n cs of [] \<Rightarrow> [[c]] | p # ps \<Rightarrow> (c # p) # ps))"

definition g_strsplit :: "string \<Rightarrow> char \<Rightarrow> int \<Rightarrow> string list" where
  "g_strsplit s d max_tokens =
     (if s = [] then []
      else if max_tokens < 1 then split_all d s
      else split_max d (nat max_tokens) s)"

text \<open>
  \<open>g_build_filename\<close> for two elements: an empty element is skipped; otherwise the
  trailing separators of the first and the leading separators of the second are replaced
  by exactly one separator.
\<close>

definition g_build_filename :: "string \<Rightarrow> string \<Rightarrow> string" where
  "g_build_filename a b =
     (if a = [] then b
      else if b = [] then a
      else rev (dropWhile (\<lambda>c. c = CHR ''/'') (rev a)) @ ''/'' @ dropWhile (\<lambda>c. c = CHR ''/'') b)"

text \<open>The \<open>%d\<close> conversion of \<open>printf\<close>: a signed decimal number.\<close>

definition digit_char :: "nat \<Rightarrow> char" where
  "digit_char n = ''0123456789'' ! (n mod 10)"

function show_nat :: "nat \<Rightarrow> string" where
  "show_nat n =
     (if n < 10 then [digit_char n]
      else show_nat (n div 10) @ [digit_char (n mod 10)])"
  by pat_completeness auto
termination
  by (relation "measure id") auto

declare show_nat.simps [simp del]

definition show_int :: "int \<Rightarrow> string" where
  "show_int i = (if i < 0 then CHR ''-'' # show_nat (nat (- i)) else show_nat (nat i))"

text \<open>A \<open>guint\<close> or \<open>gint\<close> passed to \<open>%d\<close> is printed as a signed int.\<close>

definition printf_d :: "32 word \<Rightarrow> string" where
  "printf_d n = show_int (sint n)"

section \<open>The world outside the process\<close>

text \<open>
  Calls to collaborators that are not in these files (GLib's log, the VT registry, the
  file system, the base display-server class, the subprocess runner, the user
  directory) are recorded in order. \<open>G_critical\<close> is the message GLib logs when a
  \<open>g_return_if_fail\<close> / \<open>g_return_val_if_fail\<close> check fails: the called function
  returns at once with the given default. The debug and warning messages of the
  sources are not recorded.
\<close>

datatype log_mode = LOG_MODE_APPEND | LOG_MODE_BACKUP_AND_TRUNCATE

record process =
  clear_environment :: bool
  log_file :: "(string \<times> bool \<times> log_mode) option"
  p_command :: "string option"
  p_env :: "(string \<times> string) list"

datatype ext_call =
    G_critical string
  | Vt_ref int
  | Vt_unref int
  | Mkdir_with_parents string
  | X_authority_write string
  | Unlink string
  | Display_server_start
  | Display_server_stop
  | Process_start process
  | User_list_lookup string

datatype lock_file = Unreadable | Readable string

datatype kill_result = Kill_ok | Kill_ESRCH | Kill_EPERM | Kill_EINVAL

text \<open>
  What the process reads from outside: \<open>spawn_sync cmd\<close> is the result of
  \<open>g_spawn_command_line_sync\<close> (\<open>None\<close> when the spawn fails, else the captured stderr
  and the exit status); \<open>files path\<close> is \<open>None\<close> when no file exists at the path;
  \<open>kill0 pid\<close> is the result of \<open>kill (pid, 0)\<close>; the remaining fields are the
  configuration keys of section \<open>LightDM\<close>, \<open>g_find_program_in_path\<close>, \<open>g_getenv\<close>,
  \<open>g_get_home_dir\<close> and the result of \<open>process_start\<close>.
\<close>

record sys_env =
  spawn_sync :: "string \<Rightarrow> (string \<times> int) option"
  files :: "string \<Rightarrow> lock_file option"
  kill0 :: "int \<Rightarrow> kill_result"
  minimum_display_number :: gint
  run_directory :: string
  log_directory :: string
  backup_logs :: bool
  find_program_in_path :: "string \<Rightarrow> string option"
  getenv :: "string \<Rightarrow> string option"
  home_dir :: string
  process_start_result :: bool

text \<open>The file-scope variables of x-server-local.c, and the record of outside calls.\<close>

record world =
  version :: "string option"
  version_major :: guint
  version_minor :: guint
  display_numbers :: "guint list"
  trace :: "ext_call list"

definition world0 :: world where
  "world0 = \<lparr>version = None, version_major = 0, version_minor = 0,
             display_numbers = [], trace = []\<rparr>"

section \<open>x-server-local.c: version probe\<close>

definition XORG_VERSION_PREFIX :: string where
  "XORG_VERSION_PREFIX = ''X.Org X Server ''"

definition find_version :: "string \<Rightarrow> string option" where
  "find_version line =
     (if \<not> g_str_has_prefix line XORG_VERSION_PREFIX then None
      else Some (drop (length XORG_VERSION_PREFIX) line))"

text \<open>The loop \<open>for (i = 0; lines[i] && !version; i++) version = find_version (lines[i])\<close>.\<close>

fun scan_lines :: "string list \<Rightarrow> string option" where
  "scan_lines [] = None"
| "scan_lines (l # ls) = (case find_version l of Some v \<Rightarrow> Some v | None \<Rightarrow> scan_lines ls)"

text \<open>
  \<open>g_strsplit\<close> and \<open>g_strv_length\<close> as called on a pointer that may be \<open>NULL\<close>: both
  begin with a \<open>g_return_val_if_fail (\<dots> != NULL, \<dots>)\<close>, so a \<open>NULL\<close> argument is a
  failed precondition, logged as critical, and the default (\<open>NULL\<close>, 0) is returned.
\<close>

definition g_strsplit_ptr :: "string option \<Rightarrow> char \<Rightarrow> int \<Rightarrow> string list option \<times> ext_call list" where
  "g_strsplit_ptr s d max_tokens =
     (case s of
        None \<Rightarrow> (None, [G_critical ''g_strsplit: assertion 'string != NULL' failed''])
      | Some str \<Rightarrow> (Some (g_strsplit str d max_tokens), []))"

definition g_strv_length_ptr :: "string list option \<Rightarrow> nat \<times> ext_call list" where
  "g_strv_length_ptr v =
     (case v of
        None \<Rightarrow> (0, [G_critical ''g_strv_length: assertion 'str_array != NULL' failed''])
      | Some ts \<Rightarrow> (length ts, []))"

definition EXIT_SUCCESS :: int where
  "EXIT_SUCCESS = 0"

definition x_server_local_get_version :: "sys_env \<Rightarrow> world \<Rightarrow> string option \<times> world" where
  "x_server_local_get_version env w =
     (case version w of
        Some v \<Rightarrow> (Some v, w)
      | None \<Rightarrow>
          (case spawn_sync env ''X -version'' of
             None \<Rightarrow> (None, w)
           | Some (stderr_text, exit_status) \<Rightarrow>
               let v = (if exit_status = EXIT_SUCCESS
                        then scan_lines (g_strsplit stderr_text (CHR 0x0A) (- 1))
                        else None);
                   (tokens, c1) = g_strsplit_ptr v (CHR ''.'') 3;
                   (n_tokens, c2) = g_strv_length_ptr tokens;
                   major = (if n_tokens > 0
                            then (case tokens of Some ts \<Rightarrow> atoi (ts ! 0) | None \<Rightarrow> 0) else 0);
                   minor = (if n_tokens > 1
                            then (case tokens of Some ts \<Rightarrow> atoi (ts ! 1) | None \<Rightarrow> 0) else 0)
               in (v, w\<lparr>version := v, version_major := major, version_minor := minor,
                        trace := trace w @ c1 @ c2\<rparr>)))"

text \<open>
  The differences are computed on \<open>guint\<close> and returned as \<open>gint\<close>: the caller reads the
  result with \<open>sint\<close>.
\<close>

definition x_server_local_version_compare :: "sys_env \<Rightarrow> world \<Rightarrow> guint \<Rightarrow> guint \<Rightarrow> gint \<times> world" where
  "x_server_local_version_compare env w major minor =
     (let w' = snd (x_server_local_get_version env w)
      in if major = version_major w' then (version_minor w' - minor, w')
         else (version_major w' - major, w'))"

section \<open>x-server-local.c: display numbers\<close>

primrec in_display_numbers :: "guint list \<Rightarrow> guint \<Rightarrow> bool" where
  "in_display_numbers [] n = False"
| "in_display_numbers (number # link) n = (if number = n then True else in_display_numbers link n)"

definition lock_path :: "guint \<Rightarrow> string" where
  "lock_path display_number = ''/tmp/.X'' @ printf_d display_number @ ''-lock''"

definition g_file_test_exists :: "sys_env \<Rightarrow> string \<Rightarrow> bool" where
  "g_file_test_exists env path = (files env path \<noteq> None)"

definition g_file_get_contents :: "sys_env \<Rightarrow> string \<Rightarrow> string option" where
  "g_file_get_contents env path =
     (case files env path of Some (Readable data) \<Rightarrow> Some data | _ \<Rightarrow> None)"

definition display_number_in_use :: "sys_env \<Rightarrow> guint list \<Rightarrow> guint \<Rightarrow> bool" where
  "display_number_in_use env dns display_number =
     (if in_display_numbers dns display_number then True
      else
        let path = lock_path display_number;
            in_use = g_file_test_exists env path
        in (case (if in_use then g_file_get_contents env path else None) of
              Some data \<Rightarrow>
                (let pid = atoi (g_strstrip data)
                 in if pid <s 0 \<or> kill0 env (sint pid) = Kill_ESRCH then False else in_use)
            | None \<Rightarrow> in_use))"

text \<open>
  The loop \<open>while (display_number_in_use (number)) number++\<close> on a \<open>guint\<close>: the
  increment wraps, and the loop does not end when every number is in use.
\<close>

partial_function (option) first_unused :: "sys_env \<Rightarrow> guint list \<Rightarrow> guint \<Rightarrow> guint option" where
  "first_unused env dns number =
     (if display_number_in_use env dns number then first_unused env dns (number + 1)
      else Some number)"

declare first_unused.simps [code]

definition x_server_local_get_unused_display_number :: "sys_env \<Rightarrow> world \<Rightarrow> (guint \<times> world) option" where
  "x_server_local_get_unused_display_number env w =
     (case first_unused env (display_numbers w) (minimum_display_number env) of
        None \<Rightarrow> None
      | Some number \<Rightarrow> Some (number, w\<lparr>display_numbers := display_numbers w @ [number]\<rparr>))"

text \<open>The first link holding the number is deleted; nothing happens when there is none.\<close>

primrec delete_first :: "guint \<Rightarrow> guint list \<Rightarrow> guint list" where
  "delete_first n [] = []"
| "delete_first n (number # link) = (if number = n then link else number # delete_first n link)"

definition x_server_local_release_display_number :: "guint \<Rightarrow> world \<Rightarrow> world" where
  "x_server_local_release_display_number display_number w =
     w\<lparr>display_numbers := delete_first display_number (display_numbers w)\<rparr>"

section \<open>The subprocess runner\<close>

text \<open>
  process.c is not among the sources; a \<open>Process\<close> object is the record of what the
  setters stored in it. \<open>process_set_env\<close> replaces an earlier value of the same
  variable, so the newest entry is in front and \<open>map_of\<close> finds it.
\<close>

definition process_new :: process where
  "process_new = \<lparr>clear_environment = False, log_file = None, p_command = None, p_env = []\<rparr>"

definition process_set_env :: "string \<Rightarrow> string \<Rightarrow> process \<Rightarrow> process" where
  "process_set_env name val p = p\<lparr>p_env := (name, val) # p_env p\<rparr>"

text \<open>
  Modelled from the spec: the environment the runner gives the child at exec, which
  process.c computes. Section 4.5: with \<open>set_clear_environment(true)\<close> the environment
  is fully scrubbed and only the variables given with \<open>set_env\<close> pass through;
  otherwise they are added to the parent's.
\<close>

definition child_environment :: "(string \<rightharpoonup> string) \<Rightarrow> process \<Rightarrow> (string \<rightharpoonup> string)" where
  "child_environment parent p =
     (if clear_environment p then map_of (p_env p) else parent ++ map_of (p_env p))"

section \<open>x-server-local.c: the server object\<close>

datatype x_authority = X_authority string

text \<open>
  \<open>XServerLocalPrivate\<close>, followed by what the code reads from the base class
  (\<open>x_server_get_authority\<close>, \<open>x_server_get_address\<close>) and from the class record (the
  optional \<open>add_args\<close> hook, which receives the command string built so far).
\<close>

record x_server_local =
  x_server_process :: "process option"
  command :: "string option"
  display_number :: guint
  config_file :: "string option"
  layout :: "string option"
  xdg_seat :: "string option"
  allow_tcp :: bool
  authority_file :: "string option"
  xdmcp_server :: "string option"
  xdmcp_port :: guint
  xdmcp_key :: "string option"
  got_signal :: bool
  vt :: gint
  have_vt_ref :: bool
  background :: "string option"
  authority :: "x_authority option"
  address :: string
  add_args :: "(string \<Rightarrow> string) option"

definition log_call :: "ext_call \<Rightarrow> world \<Rightarrow> world" where
  "log_call c w = w\<lparr>trace := trace w @ [c]\<rparr>"

definition log_calls :: "ext_call list \<Rightarrow> world \<Rightarrow> world" where
  "log_calls cs w = w\<lparr>trace := trace w @ cs\<rparr>"

definition x_server_local_set_vt :: "gint \<Rightarrow> x_server_local \<Rightarrow> world \<Rightarrow> x_server_local \<times> world" where
  "x_server_local_set_vt new_vt server w =
     (let w1 = (if have_vt_ref server then log_call (Vt_unref (sint (vt server))) w else w);
          server1 = server\<lparr>have_vt_ref := False, vt := new_vt\<rparr>
      in if 0 <s new_vt then (server1\<lparr>have_vt_ref := True\<rparr>, log_call (Vt_ref (sint new_vt)) w1)
         else (server1, w1))"

definition x_server_local_set_xdmcp_key :: "string option \<Rightarrow> x_server_local \<Rightarrow> x_server_local" where
  "x_server_local_set_xdmcp_key key server = server\<lparr>xdmcp_key := key, authority := None\<rparr>"

text \<open>
  \<open>tokens[0]\<close> is \<open>NULL\<close> when the command is the empty string; \<open>g_find_program_in_path\<close>
  then fails its \<open>program != NULL\<close> check and returns \<open>NULL\<close>.
\<close>

definition get_absolute_command :: "sys_env \<Rightarrow> string \<Rightarrow> string option \<times> ext_call list" where
  "get_absolute_command env cmd =
     (case g_strsplit cmd (CHR '' '') 2 of
        [] \<Rightarrow> (None, [G_critical ''g_find_program_in_path: assertion 'program != NULL' failed''])
      | t0 # ts \<Rightarrow>
          (case find_program_in_path env t0 of
             None \<Rightarrow> (None, [])
           | Some absolute_binary \<Rightarrow>
               (case ts of
                  [] \<Rightarrow> (Some absolute_binary, [])
                | t1 # _ \<Rightarrow> (Some (absolute_binary @ '' '' @ t1), []))))"

definition SIGUSR1 :: int where
  "SIGUSR1 = 10"

definition got_signal_cb :: "int \<Rightarrow> x_server_local \<Rightarrow> world \<Rightarrow> x_server_local \<times> world" where
  "got_signal_cb signum server w =
     (if signum = SIGUSR1 \<and> \<not> got_signal server
      then (server\<lparr>got_signal := True\<rparr>, log_call Display_server_start w)
      else (server, w))"

definition stopped_cb :: "x_server_local \<Rightarrow> world \<Rightarrow> x_server_local \<times> world" where
  "stopped_cb server w =
     (let (server1, w1) =
            (if have_vt_ref server
             then (server\<lparr>have_vt_ref := False\<rparr>, log_call (Vt_unref (sint (vt server))) w)
             else (server, w));
          w2 = x_server_local_release_display_number (display_number server1) w1;
          (server3, w3) =
            (case (authority server1, authority_file server1) of
               (Some a, Some path) \<Rightarrow> (server1\<lparr>authority_file := None\<rparr>, log_call (Unlink path) w2)
             | _ \<Rightarrow> (server1, w2))
      in (server3, log_call Display_server_stop w3))"

definition write_authority_file :: "sys_env \<Rightarrow> x_server_local \<Rightarrow> world \<Rightarrow> x_server_local \<times> world" where
  "write_authority_file env server w =
     (case authority server of
        None \<Rightarrow> (server, w)
      | Some a \<Rightarrow>
          (let (server1, w1) =
                 (case authority_file server of
                    Some path \<Rightarrow> (server, w)
                  | None \<Rightarrow>
                      (let dir = g_build_filename (run_directory env) ''root''
                       in (server\<lparr>authority_file := Some (g_build_filename dir (address server))\<rparr>,
                           log_call (Mkdir_with_parents dir) w)))
           in (case authority_file server1 of
                 Some path \<Rightarrow> (server1, log_call (X_authority_write path) w1)
               | None \<Rightarrow> (server1, w1))))"

text \<open>Lines 464 to 479 of \<open>x_server_local_start\<close>: the XDMCP or TCP arguments.\<close>

definition connection_args :: "sys_env \<Rightarrow> x_server_local \<Rightarrow> world \<Rightarrow> string \<times> world" where
  "connection_args env server w =
     (case xdmcp_server server of
        Some host \<Rightarrow>
          ((if xdmcp_port server \<noteq> 0 then '' -port '' @ printf_d (xdmcp_port server) else [])
             @ '' -query '' @ host
             @ (case xdmcp_key server of Some key \<Rightarrow> '' -cookie '' @ key | None \<Rightarrow> []), w)
      | None \<Rightarrow>
          if allow_tcp server
          then (let (c, w') = x_server_local_version_compare env w 1 17
                in (if 0 \<le>s c then '' -listen tcp'' else [], w'))
          else ('' -nolisten tcp'', w))"

text \<open>
  The idiom \<open>if (x) g_string_append_printf (command, " -flag %s", x)\<close>: the first
  argument is the format up to the \<open>%s\<close>.
\<close>

definition append_arg :: "string \<Rightarrow> string option \<Rightarrow> string \<Rightarrow> string" where
  "append_arg flag x cmd = (case x of Some v \<Rightarrow> cmd @ flag @ v | None \<Rightarrow> cmd)"

text \<open>
  Lines 447 to 489: the command string, appended to in the order of the source. The
  authority file is written between the \<open>-seat\<close> and the \<open>-auth\<close> argument.
\<close>

definition assemble_command :: "sys_env \<Rightarrow> string \<Rightarrow> x_server_local \<Rightarrow> world \<Rightarrow> string \<times> x_server_local \<times> world" where
  "assemble_command env absolute_command server w =
     (let cmd = absolute_command;
          cmd = cmd @ '' :'' @ printf_d (display_number server);
          cmd = append_arg '' -config '' (config_file server) cmd;
          cmd = append_arg '' -layout '' (layout server) cmd;
          cmd = append_arg '' -seat '' (xdg_seat server) cmd;
          (server1, w1) = write_authority_file env server w;
          cmd = append_arg '' -auth '' (authority_file server1) cmd;
          (conn, w2) = connection_args env server1 w1;
          cmd = cmd @ conn;
          cmd = (if 0 \<le>s vt server1 then cmd @ '' vt'' @ printf_d (vt server1) @ '' -novtswitch''
                 else cmd);
          cmd = append_arg '' -background '' (background server1) cmd;
          cmd = (case add_args server1 of Some hook \<Rightarrow> hook cmd | None \<Rightarrow> cmd)
      in (cmd, server1, w2))"

text \<open>Lines 495 to 518: the variables handed to the child.\<close>

definition pass_env :: "sys_env \<Rightarrow> string \<Rightarrow> process \<Rightarrow> process" where
  "pass_env env name p = (case getenv env name of Some v \<Rightarrow> process_set_env name v p | None \<Rightarrow> p)"

definition forward_environment :: "sys_env \<Rightarrow> process \<Rightarrow> process" where
  "forward_environment env p =
     (let p = (case getenv env ''DISPLAY'' of
                 Some d \<Rightarrow>
                   (let p = process_set_env ''DISPLAY'' d p
                    in (case getenv env ''XAUTHORITY'' of
                          Some x \<Rightarrow> process_set_env ''XAUTHORITY'' x p
                        | None \<Rightarrow>
                            process_set_env ''XAUTHORITY''
                              (g_build_filename (home_dir env) ''.Xauthority'') p))
               | None \<Rightarrow> p);
          p = pass_env env ''LD_PRELOAD'' p;
          p = pass_env env ''LD_LIBRARY_PATH'' p;
          p = pass_env env ''PATH'' p;
          p = pass_env env ''LIGHTDM_TEST_ROOT'' p
      in p)"

text \<open>
  Lines 426 to 437: the process object, with the environment cleared and the log file
  set; \<open>get_log_stdout\<close> of this class is \<open>TRUE\<close>.
\<close>

definition start_new_process :: "sys_env \<Rightarrow> x_server_local \<Rightarrow> process" where
  "start_new_process env server =
     (let p = process_new\<lparr>clear_environment := True\<rparr>;
          filename = ''x-'' @ printf_d (display_number server) @ ''.log'';
          log = g_build_filename (log_directory env) filename
      in p\<lparr>log_file := Some (log, True,
             if backup_logs env then LOG_MODE_BACKUP_AND_TRUNCATE else LOG_MODE_APPEND)\<rparr>)"

text \<open>
  \<open>x_server_local_start\<close>. The process object is created and stored before the command
  is resolved, and nothing in this file clears \<open>x_server_process\<close> again before
  \<open>finalize\<close>.
\<close>

definition x_server_local_start :: "sys_env \<Rightarrow> x_server_local \<Rightarrow> world \<Rightarrow> bool \<times> x_server_local \<times> world" where
  "x_server_local_start env server w =
     (case x_server_process server of
        Some p \<Rightarrow>
          (False, server,
           log_call (G_critical ''x_server_local_start: assertion 'server->priv->x_server_process == NULL' failed'') w)
      | None \<Rightarrow>
          (let server = server\<lparr>got_signal := False\<rparr>
           in (case command server of
                 None \<Rightarrow>
                   (False, server,
                    log_call (G_critical ''x_server_local_start: assertion 'server->priv->command != NULL' failed'') w)
               | Some cmd \<Rightarrow>
                   (let p = start_new_process env server;
                        server = server\<lparr>x_server_process := Some p\<rparr>;
                        (absolute_command, cs) = get_absolute_command env cmd;
                        w = log_calls cs w
                    in (case absolute_command of
                          None \<Rightarrow> (let (server', w') = stopped_cb server w in (False, server', w'))
                        | Some ac \<Rightarrow>
                            (let (cmdline, server, w) = assemble_command env ac server w;
                                 p = p\<lparr>p_command := Some cmdline\<rparr>;
                                 p = forward_environment env p;
                                 server = server\<lparr>x_server_process := Some p\<rparr>;
                                 w = log_call (Process_start p) w;
                                 result = process_start_result env
                             in if result then (True, server, w)
                                else (let (server', w') = stopped_cb server w
                                      in (False, server', w'))))))))"

text \<open>
  \<open>x_server_local_init\<close>: the display number is allocated at construction, the other
  private fields start zeroed; the authority and the address belong to the base class
  and are given.
\<close>

definition x_server_local_init ::
    "sys_env \<Rightarrow> x_authority option \<Rightarrow> string \<Rightarrow> world \<Rightarrow> (x_server_local \<times> world) option" where
  "x_server_local_init env auth addr w =
     (case x_server_local_get_unused_display_number env w of
        None \<Rightarrow> None
      | Some (n, w') \<Rightarrow>
          Some (\<lparr>x_server_process = None, command = Some ''X'', display_number = n,
                 config_file = None, layout = None, xdg_seat = None, allow_tcp = False,
                 authority_file = None, xdmcp_server = None, xdmcp_port = 0, xdmcp_key = None,
                 got_signal = False, vt = - 1, have_vt_ref = False, background = None,
                 authority = auth, address = addr, add_args = None\<rparr>, w'))"

subsection \<open>Events\<close>

text \<open>
  The three things that happen to a server: \<open>start\<close> is called, or the process object
  emits \<open>got-signal\<close> or \<open>stopped\<close>. Both callbacks are connected to the process object
  inside \<open>x_server_local_start\<close>, so without a process object neither can run.
\<close>

datatype event = Ev_start | Ev_got_signal int | Ev_stopped

definition step :: "sys_env \<Rightarrow> event \<Rightarrow> x_server_local \<times> world \<Rightarrow> x_server_local \<times> world" where
  "step env ev sw =
     (case ev of
        Ev_start \<Rightarrow> snd (x_server_local_start env (fst sw) (snd sw))
      | Ev_got_signal signum \<Rightarrow>
          (case x_server_process (fst sw) of
             None \<Rightarrow> sw
           | Some p \<Rightarrow> got_signal_cb signum (fst sw) (snd sw))
      | Ev_stopped \<Rightarrow>
          (case x_server_process (fst sw) of
             None \<Rightarrow> sw
           | Some p \<Rightarrow> stopped_cb (fst sw) (snd sw)))"

fun run :: "sys_env \<Rightarrow> event list \<Rightarrow> x_server_local \<times> world \<Rightarrow> x_server_local \<times> world" where
  "run env [] sw = sw"
| "run env (ev # evs) sw = run env evs (step env ev sw)"

section \<open>seat-xdmcp-session.c\<close>

text \<open>
  The XDMCP session (its authority, its peer address as \<open>g_inet_address_to_string\<close>
  prints it, its display number) and the remote X server that \<open>x_server_remote_new\<close>
  builds from the three.
\<close>

record xdmcp_session =
  xs_authority :: "x_authority option"
  xs_address :: string
  xs_display_number :: guint

record x_server_remote =
  r_hostname :: string
  r_display_number :: guint
  r_authority :: "x_authority option"

record seat_xdmcp_session =
  session :: xdmcp_session
  x_server :: "x_server_remote option"

definition seat_xdmcp_session_new :: "xdmcp_session \<Rightarrow> seat_xdmcp_session" where
  "seat_xdmcp_session_new s = \<lparr>session = s, x_server = None\<rparr>"

definition x_server_remote_new :: "string \<Rightarrow> guint \<Rightarrow> x_authority option \<Rightarrow> x_server_remote" where
  "x_server_remote_new host n auth = \<lparr>r_hostname = host, r_display_number = n, r_authority = auth\<rparr>"

text \<open>The second argument is \<open>session_get_session_type (session)\<close>.\<close>

definition seat_xdmcp_session_create_display_server ::
    "seat_xdmcp_session \<Rightarrow> string \<Rightarrow> x_server_remote option \<times> seat_xdmcp_session" where
  "seat_xdmcp_session_create_display_server seat session_type =
     (if session_type \<noteq> ''x'' then (None, seat)
      else if x_server seat \<noteq> None then (None, seat)
      else
        (let auth = xs_authority (session seat);
             host = xs_address (session seat);
             srv = x_server_remote_new host (xs_display_number (session seat)) auth
         in (Some srv, seat\<lparr>x_server := Some srv\<rparr>)))"

section \<open>accounts.c\<close>

datatype common_user = Common_user string nat

record user =
  common_user :: common_user

text \<open>The first argument is the user directory behind \<open>common_user_list_get_user_by_name\<close>.\<close>

definition accounts_get_user_by_name ::
    "(string \<Rightarrow> common_user option) \<Rightarrow> string option \<Rightarrow> user option \<times> ext_call list" where
  "accounts_get_user_by_name directory username =
     (case username of
        None \<Rightarrow> (None, [G_critical ''accounts_get_user_by_name: assertion 'username != NULL' failed''])
      | Some name \<Rightarrow>
          (case directory name of
             None \<Rightarrow> (None, [User_list_lookup name])
           | Some cu \<Rightarrow> (Some \<lparr>common_user = cu\<rparr>, [User_list_lookup name])))"

section \<open>Driving the seat with several sessions\<close>

fun create_display_servers ::
    "seat_xdmcp_session \<Rightarrow> string list \<Rightarrow> x_server_remote option list \<times> seat_xdmcp_session" where
  "create_display_servers seat [] = ([], seat)"
| "create_display_servers seat (t # ts) =
     (let (r, seat') = seat_xdmcp_session_create_display_server seat t;
          (rs, seat'') = create_display_servers seat' ts
      in (r # rs, seat''))"

section \<open>The specification's wording, for comparison with the code\<close>

text \<open>
  The lock test as the specification words it: the file exists, its stripped contents
  parse as a positive PID, and the signal-0 probe of that PID does not fail with ESRCH.
\<close>

definition spec_lock_valid :: "sys_env \<Rightarrow> guint \<Rightarrow> bool" where
  "spec_lock_valid env n =
     (case files env (lock_path n) of
        Some (Readable data) \<Rightarrow>
          0 <s atoi (g_strstrip data) \<and> kill0 env (sint (atoi (g_strstrip data))) \<noteq> Kill_ESRCH
      | _ \<Rightarrow> False)"

definition spec_in_use :: "sys_env \<Rightarrow> guint list \<Rightarrow> guint \<Rightarrow> bool" where
  "spec_in_use env dns n = (n \<in> set dns \<or> spec_lock_valid env n)"

text \<open>
  The same with a lock file that exists but cannot be read counted as valid, which is
  what the guard \<open>in_use && g_file_get_contents (\<dots>)\<close> of the code does.
\<close>

definition lock_valid :: "sys_env \<Rightarrow> guint \<Rightarrow> bool" where
  "lock_valid env n =
     (case files env (lock_path n) of
        None \<Rightarrow> False
      | Some Unreadable \<Rightarrow> True
      | Some (Readable data) \<Rightarrow>
          0 <s atoi (g_strstrip data) \<and> kill0 env (sint (atoi (g_strstrip data))) \<noteq> Kill_ESRCH)"

definition in_use :: "sys_env \<Rightarrow> guint list \<Rightarrow> guint \<Rightarrow> bool" where
  "in_use env dns n = (n \<in> set dns \<or> lock_valid env n)"

text \<open>The PID that \<open>atoi\<close> reads from the lock file of a display number, if it is readable.\<close>

definition lock_pid :: "sys_env \<Rightarrow> guint \<Rightarrow> gint option" where
  "lock_pid env n =
     (case files env (lock_path n) of
        Some (Readable data) \<Rightarrow> Some (atoi (g_strstrip data))
      | _ \<Rightarrow> None)"

section \<open>What the started child is given\<close>

text \<open>The command and the environment of the process object that \<open>start\<close> leaves in the server.\<close>

definition started_command :: "sys_env \<Rightarrow> x_server_local \<Rightarrow> world \<Rightarrow> string option" where
  "started_command env server w =
     (case x_server_process (fst (snd (x_server_local_start env server w))) of
        None \<Rightarrow> None
      | Some p \<Rightarrow> p_command p)"

definition started_child_env :: "sys_env \<Rightarrow> x_server_local \<Rightarrow> world \<Rightarrow> string \<Rightarrow> string option" where
  "started_child_env env server w =
     (case x_server_process (fst (snd (x_server_local_start env server w))) of
        None \<Rightarrow> Map.empty
      | Some p \<Rightarrow> child_environment (getenv env) p)"

text \<open>Whether the command string that \<open>start\<close> built contains a text.\<close>

definition command_contains :: "sys_env \<Rightarrow> x_server_local \<Rightarrow> world \<Rightarrow> string \<Rightarrow> bool" where
  "command_contains env server w flag =
     (case started_command env server w of None \<Rightarrow> False | Some c \<Rightarrow> sublist flag c)"

text \<open>
  The strings that \<open>start\<close> copies into the command as they are, for a command that
  resolved to \<open>ac\<close>: the authority file path is the one \<open>write_authority_file\<close>
  leaves in the server.
\<close>

definition opt_list :: "'a option \<Rightarrow> 'a list" where
  "opt_list x = (case x of None \<Rightarrow> [] | Some v \<Rightarrow> [v])"

definition pasted_strings :: "sys_env \<Rightarrow> x_server_local \<Rightarrow> string \<Rightarrow> string list" where
  "pasted_strings env server ac =
     ac # opt_list (config_file server) @ opt_list (layout server) @ opt_list (xdg_seat server)
       @ opt_list (authority_file (fst (write_authority_file env server world0)))
       @ opt_list (xdmcp_server server) @ opt_list (xdmcp_key server)
       @ opt_list (background server)"

text \<open>
  The environment as the specification words it: the whitelist intersected with the
  parent's environment, and \<open>XAUTHORITY\<close> defaulted when \<open>DISPLAY\<close> is set and
  \<open>XAUTHORITY\<close> is not.
\<close>

definition whitelist :: "string list" where
  "whitelist = [''DISPLAY'', ''XAUTHORITY'', ''LD_PRELOAD'', ''LD_LIBRARY_PATH'', ''PATH'',
                ''LIGHTDM_TEST_ROOT'']"

definition spec_child_env :: "sys_env \<Rightarrow> string \<Rightarrow> string option" where
  "spec_child_env env name =
     (if name \<in> set whitelist
      then (case getenv env name of
              Some v \<Rightarrow> Some v
            | None \<Rightarrow>
                if name = ''XAUTHORITY'' \<and> getenv env ''DISPLAY'' \<noteq> None
                then Some (g_build_filename (home_dir env) ''.Xauthority'') else None)
      else None)"

text \<open>The same, with \<open>XAUTHORITY\<close> passed on only when \<open>DISPLAY\<close> is set.\<close>

definition forwarded_env :: "sys_env \<Rightarrow> string \<Rightarrow> string option" where
  "forwarded_env env name =
     (if name = ''XAUTHORITY'' \<and> getenv env ''DISPLAY'' = None then None
      else spec_child_env env name)"

text \<open>
  What holds of a server between events: without a process object the ready signal has
  not been seen and no authority file is recorded, and an authority file is recorded
  only for a server that has an authority.
\<close>

definition lifecycle_inv :: "x_server_local \<Rightarrow> bool" where
  "lifecycle_inv s =
     ((x_server_process s = None \<longrightarrow> \<not> got_signal s \<and> authority_file s = None)
      \<and> (authority_file s \<noteq> None \<longrightarrow> authority s \<noteq> None))"

text \<open>
  The window of the life cycle: it opens when \<open>start\<close> returns \<open>TRUE\<close> and closes at
  the next stopped event. The last argument is whether the window is open before the
  events.
\<close>

fun window :: "sys_env \<Rightarrow> event list \<Rightarrow> x_server_local \<times> world \<Rightarrow> bool \<Rightarrow> bool" where
  "window env [] sw win = win"
| "window env (ev # evs) sw win =
     window env evs (step env ev sw)
       (case ev of
          Ev_start \<Rightarrow> fst (x_server_local_start env (fst sw) (snd sw)) \<or> win
        | Ev_got_signal signum \<Rightarrow> win
        | Ev_stopped \<Rightarrow> False)"

text \<open>
  With the window: an authority file is recorded exactly while the window is open and
  the server has an authority, and an open window has a process object.
\<close>

definition window_inv :: "x_server_local \<Rightarrow> bool \<Rightarrow> bool" where
  "window_inv s win =
     (lifecycle_inv s
      \<and> (authority_file s \<noteq> None \<longleftrightarrow> win \<and> authority s \<noteq> None)
      \<and> (win \<longrightarrow> x_server_process s \<noteq> None))"

section \<open>Concrete inputs\<close>

definition env_default :: sys_env where
  "env_default =
     \<lparr>spawn_sync = (\<lambda>c. None), files = (\<lambda>p. None), kill0 = (\<lambda>p. Kill_ok),
      minimum_display_number = 0, run_directory = ''/run/lightdm'',
      log_directory = ''/var/log/lightdm'', backup_logs = False,
      find_program_in_path = (\<lambda>p. if p = ''X'' then Some ''/usr/bin/X'' else None),
      getenv = (\<lambda>k. None), home_dir = ''/root'', process_start_result = True\<rparr>"

text \<open>A running foreign X server holds display 0: its lock file names the live PID 12345.\<close>

definition env_lock0 :: sys_env where
  "env_lock0 =
     env_default\<lparr>files := (\<lambda>p. if p = ''/tmp/.X0-lock''
                              then Some (Readable (''12345'' @ [CHR 0x0A])) else None)\<rparr>"

text \<open>Something exists at /tmp/.X0-lock that cannot be read (a directory, say).\<close>

definition env_unreadable0 :: sys_env where
  "env_unreadable0 =
     env_default\<lparr>files := (\<lambda>p. if p = ''/tmp/.X0-lock'' then Some Unreadable else None)\<rparr>"

text \<open>\<open>X -version\<close> runs and exits with status 1, printing nothing.\<close>

definition env_exit1 :: sys_env where
  "env_exit1 = env_default\<lparr>spawn_sync := (\<lambda>c. if c = ''X -version'' then Some ([], 1) else None)\<rparr>"

text \<open>\<open>X -version\<close> exits with status 0, and no line of its output has the prefix.\<close>

definition env_no_prefix :: sys_env where
  "env_no_prefix =
     env_default\<lparr>spawn_sync := (\<lambda>c. if c = ''X -version''
                                   then Some (''Xvfb 1.20'' @ [CHR 0x0A], 0) else None)\<rparr>"

definition session0 :: xdmcp_session where
  "session0 = \<lparr>xs_authority = Some (X_authority ''cookie''), xs_address = ''192.168.1.20'',
               xs_display_number = 0\<rparr>"

definition seat0 :: seat_xdmcp_session where
  "seat0 = seat_xdmcp_session_new session0"

definition remote0 :: x_server_remote where
  "remote0 = x_server_remote_new ''192.168.1.20'' 0 (Some (X_authority ''cookie''))"

text \<open>The lock file of display 0 holds text that is not a number.\<close>

definition env_garbage0 :: sys_env where
  "env_garbage0 =
     env_default\<lparr>files := (\<lambda>p. if p = ''/tmp/.X0-lock'' then Some (Readable ''abc'') else None)\<rparr>"

text \<open>
  The server of the argument-assembly scenario: command "X", display 2, layout "foo",
  seat "seat0", no TCP, VT 7, with an authority, on a world where display 2 is reserved.
\<close>

definition server_c6 :: x_server_local where
  "server_c6 =
     \<lparr>x_server_process = None, command = Some ''X'', display_number = 2, config_file = None,
      layout = Some ''foo'', xdg_seat = Some ''seat0'', allow_tcp = False,
      authority_file = None, xdmcp_server = None, xdmcp_port = 0, xdmcp_key = None,
      got_signal = False, vt = 7, have_vt_ref = True, background = None,
      authority = Some (X_authority ''cookie''), address = '':2'', add_args = None\<rparr>"

definition world2 :: world where
  "world2 = world0\<lparr>display_numbers := [2]\<rparr>"

text \<open>The same server with a command whose binary is not in the path.\<close>

definition server_xorg_core :: x_server_local where
  "server_xorg_core = server_c6\<lparr>command := Some ''Xorg -core''\<rparr>"

text \<open>The daemon runs inside another display, without \<open>XAUTHORITY\<close>.\<close>

definition env_nested :: sys_env where
  "env_nested = env_default\<lparr>getenv := (\<lambda>k. if k = ''DISPLAY'' then Some '':0''
                                        else if k = ''HOME'' then Some ''/root'' else None)\<rparr>"

text \<open>The parent has \<open>XAUTHORITY\<close> and no \<open>DISPLAY\<close>.\<close>

definition env_xauth_only :: sys_env where
  "env_xauth_only =
     env_default\<lparr>getenv := (\<lambda>k. if k = ''XAUTHORITY'' then Some ''/home/u/.Xauthority''
                               else None)\<rparr>"

text \<open>\<open>X -version\<close> reports version 1.20.4.\<close>

definition env_x120 :: sys_env where
  "env_x120 =
     env_default\<lparr>spawn_sync := (\<lambda>c. if c = ''X -version''
                                   then Some (''X.Org X Server 1.20.4'' @ [CHR 0x0A], 0)
                                   else None)\<rparr>"

text \<open>The scenario's server with TCP allowed, and the same with a flag in the command.\<close>

definition server_allow_tcp :: x_server_local where
  "server_allow_tcp = server_c6\<lparr>allow_tcp := True\<rparr>"

definition server_tcp :: x_server_local where
  "server_tcp = server_c6\<lparr>command := Some ''X -nolisten tcp'', allow_tcp := True\<rparr>"

section \<open>Properties\<close>

subsection \<open>Display numbers\<close>

lemma in_display_numbers_set: "in_display_numbers dns n \<longleftrightarrow> n \<in> set dns"
  by (induction dns) auto

lemma delete_first_absent: "\<not> in_display_numbers dns m \<Longrightarrow> delete_first m dns = dns"
  by (induction dns) auto

lemma delete_first_append_new: "\<not> in_display_numbers dns n \<Longrightarrow> delete_first n (dns @ [n]) = dns"
  by (induction dns) auto

lemma in_use_if_listed: "in_display_numbers dns n \<Longrightarrow> display_number_in_use env dns n"
  by (simp add: display_number_in_use_def)

text \<open>Whatever the scan returns is not in use.\<close>

lemma first_unused_not_in_use:
  "first_unused env dns k = Some n \<Longrightarrow> \<not> display_number_in_use env dns n"
proof (induction rule: first_unused.raw_induct [rotated 1, consumes 1])
  case (1 f e ds number y)
  show ?case
  proof (cases "display_number_in_use e ds number")
    case True
    then have a: "f e ds (number + 1) = Some y" using "1" by simp
    show ?thesis using "1" a by blast
  next
    case False
    then show ?thesis using "1" by simp
  qed
qed

text \<open>
  The scan ends, at the least free number from its starting point on, as soon as there
  is a free number that is not below the starting point.
\<close>

lemma first_unused_least:
  assumes "k \<le> n" and "\<not> display_number_in_use env dns n"
    and "\<forall>j. k \<le> j \<and> j < n \<longrightarrow> display_number_in_use env dns j"
  shows "first_unused env dns k = Some n"
  using assms
proof (induction "unat n - unat k" arbitrary: k)
  case 0
  then have "k = n"
    by (simp add: word_le_nat_alt word_unat_eq_iff)
  with 0 show ?case by (simp add: first_unused.simps)
next
  case (Suc d)
  then have lt: "k < n"
    by (simp add: word_less_nat_alt)
  then have used: "display_number_in_use env dns k"
    using Suc.prems by simp
  have le': "k + 1 \<le> n" using lt by (rule inc_le)
  have un: "unat (k + 1) = Suc (unat k)"
    using lt by unat_arith
  have d: "d = unat n - unat (k + 1)" using Suc.hyps(2) un by simp
  have rest: "\<forall>j. k + 1 \<le> j \<and> j < n \<longrightarrow> display_number_in_use env dns j"
  proof (intro allI impI)
    fix j assume "k + 1 \<le> j \<and> j < n"
    moreover have "k \<le> k + 1" using un by (simp add: word_le_nat_alt)
    ultimately have "k \<le> j \<and> j < n" by auto
    then show "display_number_in_use env dns j" using Suc.prems by blast
  qed
  have "first_unused env dns (k + 1) = Some n"
    using Suc.hyps(1)[OF d le' Suc.prems(2) rest] .
  then show ?case using used by (subst first_unused.simps) simp
qed

lemma release_after_reserve:
  assumes "x_server_local_get_unused_display_number env w = Some (n, w1)"
  shows "x_server_local_release_display_number n w1 = w"
proof -
  from assms have f: "first_unused env (display_numbers w) (minimum_display_number env) = Some n"
    and w1: "w1 = w\<lparr>display_numbers := display_numbers w @ [n]\<rparr>"
    by (auto simp: x_server_local_get_unused_display_number_def split: option.splits)
  have "\<not> in_display_numbers (display_numbers w) n"
    using first_unused_not_in_use [OF f] in_use_if_listed by blast
  then show ?thesis
    by (simp add: w1 x_server_local_release_display_number_def delete_first_append_new)
qed

lemma lock_path_0: "lock_path 0 = ''/tmp/.X0-lock''"
  by (simp add: lock_path_def printf_d_def show_int_def show_nat.simps digit_char_def)

lemma lock_path_1: "lock_path 1 = ''/tmp/.X1-lock''"
  by (simp add: lock_path_def printf_d_def show_int_def show_nat.simps digit_char_def)

lemma atoi_12345: "atoi (g_strstrip (''12345'' @ [CHR 0x0A])) = 12345"
  by code_simp

lemma reserve_lock0:
  "x_server_local_get_unused_display_number env_lock0 world0
     = Some (1, world0\<lparr>display_numbers := [1]\<rparr>)"
  by code_simp

text \<open>
  C4. A number obtained from \<open>x_server_local_get_unused_display_number\<close>, once released,
  is what the next call returns when the outside world has not changed; and releasing a
  number that is not in the list changes nothing.
\<close>

theorem reserve_release_reserve:
  "(x_server_local_get_unused_display_number env w = Some (n, w1) \<longrightarrow>
      x_server_local_get_unused_display_number env (x_server_local_release_display_number n w1)
        = Some (n, w1))
   \<and> (\<not> in_display_numbers (display_numbers w) m \<longrightarrow>
        x_server_local_release_display_number m w = w)"
proof (intro conjI impI)
  assume r: "x_server_local_get_unused_display_number env w = Some (n, w1)"
  then have "x_server_local_release_display_number n w1 = w"
    by (rule release_after_reserve)
  with r show "x_server_local_get_unused_display_number env
      (x_server_local_release_display_number n w1) = Some (n, w1)"
    by simp
next
  assume "\<not> in_display_numbers (display_numbers w) m"
  then show "x_server_local_release_display_number m w = w"
    by (simp add: x_server_local_release_display_number_def delete_first_absent)
qed

theorem reserve_release_reserve_witness:
  "x_server_local_get_unused_display_number env_lock0 world0
     = Some (1, world0\<lparr>display_numbers := [1]\<rparr>)
   \<and> x_server_local_get_unused_display_number env_lock0
        (x_server_local_release_display_number 1 (world0\<lparr>display_numbers := [1]\<rparr>))
        = Some (1, world0\<lparr>display_numbers := [1]\<rparr>)
   \<and> \<not> in_display_numbers (display_numbers (world0\<lparr>display_numbers := [1]\<rparr>)) 0
   \<and> x_server_local_release_display_number 0 (world0\<lparr>display_numbers := [1]\<rparr>)
        = world0\<lparr>display_numbers := [1]\<rparr>"
  using reserve_release_reserve [of env_lock0 world0 1 "world0\<lparr>display_numbers := [1]\<rparr>" 0]
    reserve_release_reserve [of env_lock0 "world0\<lparr>display_numbers := [1]\<rparr>" 1
      "world0\<lparr>display_numbers := [1]\<rparr>" 0]
    reserve_lock0
  by simp

subsection \<open>Version probe\<close>

text \<open>
  C2. The probe at the two inputs where the spawn succeeds and no version is found (a
  non-zero exit status; a zero exit status with no line carrying the prefix): \<open>version\<close>
  is still \<open>NULL\<close> when it is handed to \<open>g_strsplit\<close>, and the \<open>NULL\<close> vector that
  comes back is handed to \<open>g_strv_length\<close>. Both calls fail their non-\<open>NULL\<close>
  precondition; the defaults they return leave both version numbers 0.
\<close>

theorem get_version_passes_null:
  "trace (snd (x_server_local_get_version env_exit1 world0))
     = [G_critical ''g_strsplit: assertion 'string != NULL' failed'',
        G_critical ''g_strv_length: assertion 'str_array != NULL' failed'']
   \<and> trace (snd (x_server_local_get_version env_no_prefix world0))
     = [G_critical ''g_strsplit: assertion 'string != NULL' failed'',
        G_critical ''g_strv_length: assertion 'str_array != NULL' failed'']
   \<and> version_major (snd (x_server_local_get_version env_exit1 world0)) = 0
   \<and> version_minor (snd (x_server_local_get_version env_exit1 world0)) = 0"
  by code_simp

subsection \<open>XDMCP seat\<close>

lemma create_display_server_cached:
  "x_server seat \<noteq> None \<Longrightarrow> seat_xdmcp_session_create_display_server seat t = (None, seat)"
  by (simp add: seat_xdmcp_session_create_display_server_def)

lemma create_display_servers_cached:
  "x_server seat \<noteq> None \<Longrightarrow>
     create_display_servers seat ts = (replicate (length ts) None, seat)"
  by (induction ts) (simp_all add: create_display_server_cached)

text \<open>
  C1, as the code has it. A session whose type is not "x" yields no display server. The
  first session of type "x" on a seat that holds no remote server yields a new one, built
  from the XDMCP session, which the seat keeps. Once the seat holds a remote server,
  every later invocation yields none and leaves the seat as it is, so the seat never
  creates a second one.
\<close>

theorem create_display_server_once:
  "(session_type \<noteq> ''x'' \<longrightarrow>
      seat_xdmcp_session_create_display_server seat session_type = (None, seat))
   \<and> (x_server seat = None \<longrightarrow>
        seat_xdmcp_session_create_display_server seat ''x''
          = (Some (x_server_remote_new (xs_address (session seat))
                     (xs_display_number (session seat)) (xs_authority (session seat))),
             seat\<lparr>x_server := Some (x_server_remote_new (xs_address (session seat))
                     (xs_display_number (session seat)) (xs_authority (session seat)))\<rparr>))
   \<and> (x_server seat \<noteq> None \<longrightarrow>
        create_display_servers seat types = (replicate (length types) None, seat))"
  by (simp add: seat_xdmcp_session_create_display_server_def create_display_servers_cached Let_def)

theorem create_display_server_once_witness:
  "seat_xdmcp_session_create_display_server seat0 ''wayland'' = (None, seat0)
   \<and> seat_xdmcp_session_create_display_server seat0 ''x''
       = (Some remote0, seat0\<lparr>x_server := Some remote0\<rparr>)
   \<and> create_display_servers (seat0\<lparr>x_server := Some remote0\<rparr>) [''x'', ''wayland'', ''x'']
       = ([None, None, None], seat0\<lparr>x_server := Some remote0\<rparr>)"
  using create_display_server_once [of "''wayland''" seat0 "[]"]
    create_display_server_once [of "''x''" "seat0\<lparr>x_server := Some remote0\<rparr>"
      "[''x'', ''wayland'', ''x'']"]
  by (simp add: seat0_def session0_def remote0_def seat_xdmcp_session_new_def Let_def)

text \<open>
  C1, as stated, fails: the second invocation with a session of type "x" does not yield
  the server that the first one created. It yields none.
\<close>

theorem create_display_server_second_is_none:
  "fst (seat_xdmcp_session_create_display_server seat0 ''x'') = Some remote0
   \<and> fst (seat_xdmcp_session_create_display_server
            (snd (seat_xdmcp_session_create_display_server seat0 ''x'')) ''x'') = None"
  by (simp add: seat_xdmcp_session_create_display_server_def seat0_def session0_def remote0_def
      seat_xdmcp_session_new_def Let_def)

subsection \<open>Accounts\<close>

text \<open>
  C10. With a null user name \<open>accounts_get_user_by_name\<close> returns none and the user
  directory is not consulted; with the name of a user that the directory does not hold
  it returns none as well.
\<close>

theorem accounts_get_user_by_name_none:
  "fst (accounts_get_user_by_name directory None) = None
   \<and> (\<forall>n. User_list_lookup n \<notin> set (snd (accounts_get_user_by_name directory None)))
   \<and> (directory name = None \<longrightarrow> fst (accounts_get_user_by_name directory (Some name)) = None)"
  by (simp add: accounts_get_user_by_name_def)

theorem accounts_get_user_by_name_none_witness:
  "fst (accounts_get_user_by_name (\<lambda>n. None) (Some ''alice'')) = None
   \<and> fst (accounts_get_user_by_name (\<lambda>n. None) None) = None"
  using accounts_get_user_by_name_none [of "\<lambda>n. None" "''alice''"]
  by simp

subsection \<open>The lock test\<close>

lemma sless_zero_cases: "(pid :: 32 word) \<noteq> 0 \<Longrightarrow> \<not> pid <s 0 \<longleftrightarrow> 0 <s pid"
proof -
  assume "pid \<noteq> 0"
  then have "sint pid \<noteq> 0"
    using signed_eq_0_iff [of pid, where ?'a = int] by simp
  then show ?thesis by (auto simp: word_sless_alt)
qed

text \<open>
  Away from lock files whose text reads as PID 0, the test of the code is: in the list,
  or a lock file that is unreadable or names a positive PID whose probe does not fail
  with ESRCH.
\<close>

lemma in_use_amended_eq:
  "lock_pid env n \<noteq> Some 0 \<Longrightarrow> display_number_in_use env dns n \<longleftrightarrow> in_use env dns n"
  by (auto simp: display_number_in_use_def in_use_def lock_valid_def lock_pid_def
      g_file_test_exists_def g_file_get_contents_def in_display_numbers_set Let_def
      sless_zero_cases
      split: option.splits lock_file.splits)

lemma lock_pid_env_lock0: "lock_pid env_lock0 k \<noteq> Some 0"
  by (simp add: lock_pid_def env_lock0_def env_default_def atoi_12345 [simplified])

lemma in_use_env_lock0_0: "in_use env_lock0 [] 0"
  by (simp add: in_use_def lock_valid_def env_lock0_def env_default_def lock_path_0
      atoi_12345 [simplified] word_sless_alt)

lemma in_use_env_lock0_1: "\<not> in_use env_lock0 [] 1"
  by (simp add: in_use_def lock_valid_def env_lock0_def env_default_def lock_path_1)

text \<open>
  A lock file whose text is not a number reads as PID 0, which is not negative, and
  \<open>kill (0, 0)\<close> succeeds: the code counts display 0 as in use.
\<close>

lemma get_unused_display_number_garbage_lock:
  "x_server_local_get_unused_display_number env_garbage0 world0
     = Some (1, world0\<lparr>display_numbers := [1]\<rparr>)"
  by code_simp

text \<open>
  C3, as the code has it. Let a number be in use when it is in the reserved list or has a
  valid foreign lock, a lock being valid when the file /tmp/.X<n>-lock exists and either
  cannot be read or holds, stripped, a positive PID whose signal-0 probe does not fail
  with ESRCH. Where no readable lock file in the range scanned reads as PID 0,
  \<open>reserve\<close> returns the smallest number that is at least the configured minimum and not in use, and appends it
  to the reserved list.
\<close>

theorem get_unused_display_number_least:
  assumes "\<forall>k. minimum_display_number env \<le> k \<and> k \<le> n \<longrightarrow> lock_pid env k \<noteq> Some 0"
    and "minimum_display_number env \<le> n"
    and "\<not> in_use env (display_numbers w) n"
    and "\<forall>k. minimum_display_number env \<le> k \<and> k < n \<longrightarrow> in_use env (display_numbers w) k"
  shows "x_server_local_get_unused_display_number env w
           = Some (n, w\<lparr>display_numbers := display_numbers w @ [n]\<rparr>)"
proof -
  have eq: "display_number_in_use env (display_numbers w) k
              \<longleftrightarrow> in_use env (display_numbers w) k"
    if "minimum_display_number env \<le> k" and "k \<le> n" for k
    using assms(1) that by (simp add: in_use_amended_eq)
  have "first_unused env (display_numbers w) (minimum_display_number env) = Some n"
    using assms(2-4) by (intro first_unused_least) (auto simp: eq)
  then show ?thesis
    by (simp add: x_server_local_get_unused_display_number_def)
qed

theorem get_unused_display_number_least_witness:
  "x_server_local_get_unused_display_number env_lock0 world0
     = Some (1, world0\<lparr>display_numbers := [1]\<rparr>)"
proof -
  have m: "minimum_display_number env_lock0 = 0"
    by (simp add: env_lock0_def env_default_def)
  have d: "display_numbers world0 = []"
    by (simp add: world0_def)
  have h1: "\<forall>k. minimum_display_number env_lock0 \<le> k \<and> k \<le> 1
              \<longrightarrow> lock_pid env_lock0 k \<noteq> Some 0"
    using lock_pid_env_lock0 by blast
  have h2: "minimum_display_number env_lock0 \<le> 1"
    by (simp add: m)
  have h3: "\<not> in_use env_lock0 (display_numbers world0) 1"
    by (simp only: d in_use_env_lock0_1 not_False_eq_True)
  have h4: "\<forall>k. minimum_display_number env_lock0 \<le> k \<and> k < 1
              \<longrightarrow> in_use env_lock0 (display_numbers world0) k"
    by (simp add: d word_less_1 in_use_env_lock0_0)
  show ?thesis
    using get_unused_display_number_least [OF h1 h2 h3 h4] by (simp add: d)
qed

text \<open>
  C3, as stated, fails. With the minimum 0, an empty reserved list and an unreadable
  /tmp/.X0-lock, display 0 is not in use in the stated sense (there are no contents that
  parse as a PID), so 0 is the smallest free number; the code returns 1.
\<close>

theorem get_unused_display_number_unreadable_lock:
  "minimum_display_number env_unreadable0 = 0
   \<and> \<not> spec_in_use env_unreadable0 (display_numbers world0) 0
   \<and> x_server_local_get_unused_display_number env_unreadable0 world0
       = Some (1, world0\<lparr>display_numbers := [1]\<rparr>)"
  by code_simp

subsection \<open>Starting the server\<close>

lemma printf_d_2: "printf_d 2 = ''2''"
  by (simp add: printf_d_def show_int_def show_nat.simps digit_char_def)
lemma printf_d_7: "printf_d 7 = ''7''"
  by (simp add: printf_d_def show_int_def show_nat.simps digit_char_def)

lemma start_new_process_got_signal [simp]:
  "start_new_process env (server\<lparr>got_signal := b\<rparr>) = start_new_process env server"
  by (simp add: start_new_process_def)

lemma start_new_process_fields [simp]:
  "clear_environment (start_new_process env server)"
  "p_env (start_new_process env server) = []"
  "p_command (start_new_process env server) = None"
  by (simp_all add: start_new_process_def process_new_def Let_def)

lemma process_set_env_fields [simp]:
  "clear_environment (process_set_env n v p) = clear_environment p"
  "p_command (process_set_env n v p) = p_command p"
  "log_file (process_set_env n v p) = log_file p"
  by (simp_all add: process_set_env_def)

lemma pass_env_fields [simp]:
  "clear_environment (pass_env env n p) = clear_environment p"
  "p_command (pass_env env n p) = p_command p"
  "log_file (pass_env env n p) = log_file p"
  by (simp_all add: pass_env_def split: option.splits)

lemma forward_environment_fields [simp]:
  "clear_environment (forward_environment env p) = clear_environment p"
  "p_command (forward_environment env p) = p_command p"
  "log_file (forward_environment env p) = log_file p"
  by (simp_all add: forward_environment_def Let_def split: option.splits)

lemma start_with_process:
  "x_server_process server = Some p \<Longrightarrow>
     fst (x_server_local_start env server w) = False
     \<and> fst (snd (x_server_local_start env server w)) = server"
  by (simp add: x_server_local_start_def)

lemma start_without_command:
  "x_server_process server = None \<Longrightarrow> command server = None \<Longrightarrow>
     fst (x_server_local_start env server w) = False
     \<and> fst (snd (x_server_local_start env server w)) = server\<lparr>got_signal := False\<rparr>"
  by (simp add: x_server_local_start_def)

lemma start_not_found:
  "x_server_process server = None \<Longrightarrow> command server = Some cmd \<Longrightarrow>
   get_absolute_command env cmd = (None, cs) \<Longrightarrow>
     x_server_local_start env server w
       = (False, stopped_cb (server\<lparr>got_signal := False,
                                    x_server_process := Some (start_new_process env server)\<rparr>)
                   (log_calls cs w))"
  by (simp add: x_server_local_start_def Let_def split: prod.splits)

lemma start_found:
  "x_server_process server = None \<Longrightarrow> command server = Some cmd \<Longrightarrow>
   get_absolute_command env cmd = (Some ac, cs) \<Longrightarrow>
   assemble_command env ac (server\<lparr>got_signal := False,
        x_server_process := Some (start_new_process env server)\<rparr>) (log_calls cs w)
     = (cmdline, server1, w1) \<Longrightarrow>
   p = forward_environment env ((start_new_process env server)\<lparr>p_command := Some cmdline\<rparr>) \<Longrightarrow>
     x_server_local_start env server w
       = (if process_start_result env
          then (True, server1\<lparr>x_server_process := Some p\<rparr>, log_call (Process_start p) w1)
          else (False, stopped_cb (server1\<lparr>x_server_process := Some p\<rparr>)
                         (log_call (Process_start p) w1)))"
  by (simp add: x_server_local_start_def Let_def split: prod.splits)

lemma stopped_cb_server:
  "fst (stopped_cb s w)
     = s\<lparr>have_vt_ref := False,
          authority_file := (if authority s = None then authority_file s else None)\<rparr>"
  by (cases "authority_file s"; cases "authority s")
     (auto simp: stopped_cb_def Let_def split: prod.splits)

lemma stopped_cb_world:
  "snd (stopped_cb s w)
     = w\<lparr>display_numbers := delete_first (display_number s) (display_numbers w),
          trace := trace w
            @ (if have_vt_ref s then [Vt_unref (sint (vt s))] else [])
            @ (case (authority s, authority_file s) of
                 (Some a, Some path) \<Rightarrow> [Unlink path] | _ \<Rightarrow> [])
            @ [Display_server_stop]\<rparr>"
  by (cases "authority_file s"; cases "authority s")
     (auto simp: stopped_cb_def Let_def log_call_def x_server_local_release_display_number_def
        split: prod.splits)

lemma write_authority_file_server:
  "fst (write_authority_file env s w)
     = (case authority s of
          None \<Rightarrow> s
        | Some a \<Rightarrow>
            (case authority_file s of
               Some path \<Rightarrow> s
             | None \<Rightarrow> s\<lparr>authority_file :=
                  Some (g_build_filename (g_build_filename (run_directory env) ''root'') (address s))\<rparr>))"
  by (simp add: write_authority_file_def Let_def split: option.splits prod.splits)

lemma assemble_command_server:
  "fst (snd (assemble_command env ac s w)) = fst (write_authority_file env s w)"
  by (simp add: assemble_command_def Let_def split: prod.splits)

lemma process_set_env_lookup:
  "map_of (p_env (process_set_env n v p)) k = (if k = n then Some v else map_of (p_env p) k)"
  by (simp add: process_set_env_def)

lemma pass_env_lookup:
  "map_of (p_env (pass_env env n p)) k
     = (if k = n then (case getenv env n of Some v \<Rightarrow> Some v | None \<Rightarrow> map_of (p_env p) k)
        else map_of (p_env p) k)"
  by (cases "getenv env n") (simp_all add: pass_env_def process_set_env_lookup)

lemma case_option_id: "(case x of None \<Rightarrow> None | Some v \<Rightarrow> Some v) = x"
  by (cases x) simp_all

lemma display_env_lookup:
  assumes "p_env p = []"
  shows "map_of (p_env (case getenv env ''DISPLAY'' of
                 None \<Rightarrow> p
               | Some d \<Rightarrow>
                   (case getenv env ''XAUTHORITY'' of
                      None \<Rightarrow>
                        process_set_env ''XAUTHORITY''
                          (g_build_filename (home_dir env) ''.Xauthority'')
                          (process_set_env ''DISPLAY'' d p)
                    | Some x \<Rightarrow>
                        process_set_env ''XAUTHORITY'' x (process_set_env ''DISPLAY'' d p)))) k
     = (if k = ''DISPLAY'' then getenv env ''DISPLAY''
        else if k = ''XAUTHORITY'' \<and> getenv env ''DISPLAY'' \<noteq> None
        then (case getenv env ''XAUTHORITY'' of
                Some x \<Rightarrow> Some x
              | None \<Rightarrow> Some (g_build_filename (home_dir env) ''.Xauthority''))
        else None)"
  by (cases "getenv env ''DISPLAY''"; cases "getenv env ''XAUTHORITY''")
     (simp_all add: process_set_env_lookup assms Let_def)

lemma forwarded_env_lookup:
  "forwarded_env env k
     = (if k = ''LIGHTDM_TEST_ROOT'' then getenv env ''LIGHTDM_TEST_ROOT''
        else if k = ''PATH'' then getenv env ''PATH''
        else if k = ''LD_LIBRARY_PATH'' then getenv env ''LD_LIBRARY_PATH''
        else if k = ''LD_PRELOAD'' then getenv env ''LD_PRELOAD''
        else if k = ''DISPLAY'' then getenv env ''DISPLAY''
        else if k = ''XAUTHORITY'' \<and> getenv env ''DISPLAY'' \<noteq> None
        then (case getenv env ''XAUTHORITY'' of
                Some x \<Rightarrow> Some x
              | None \<Rightarrow> Some (g_build_filename (home_dir env) ''.Xauthority''))
        else None)"
  by (simp add: forwarded_env_def spec_child_env_def whitelist_def split: option.splits)

lemma forward_environment_env:
  assumes "p_env p = []"
  shows "map_of (p_env (forward_environment env p)) = forwarded_env env"
proof (rule ext)
  fix k
  show "map_of (p_env (forward_environment env p)) k = forwarded_env env k"
  proof -
    consider "k = ''LIGHTDM_TEST_ROOT''" | "k = ''PATH''" | "k = ''LD_LIBRARY_PATH''"
      | "k = ''LD_PRELOAD''" | "k = ''DISPLAY''" | "k = ''XAUTHORITY''"
      | "k \<noteq> ''LIGHTDM_TEST_ROOT''" "k \<noteq> ''PATH''" "k \<noteq> ''LD_LIBRARY_PATH''"
        "k \<noteq> ''LD_PRELOAD''" "k \<noteq> ''DISPLAY''" "k \<noteq> ''XAUTHORITY''"
      by blast
    then show ?thesis
      unfolding forward_environment_def Let_def forwarded_env_lookup
      by cases
        (simp_all add: pass_env_lookup display_env_lookup [OF assms] split: option.split)
  qed
qed

lemma get_absolute_command_X:
  "find_program_in_path env ''X'' = Some path \<Longrightarrow> get_absolute_command env ''X'' = (Some path, [])"
  by (simp add: get_absolute_command_def g_strsplit_def)

lemma get_absolute_command_unresolved:
  "g_strsplit cmd (CHR '' '') 2 = t0 # ts \<Longrightarrow> find_program_in_path env t0 = None \<Longrightarrow>
     get_absolute_command env cmd = (None, [])"
  by (simp add: get_absolute_command_def)

lemma log_calls_Nil [simp]: "log_calls [] w = w"
  by (simp add: log_calls_def)

lemma stopped_cb_process [simp]:
  "x_server_process (fst (stopped_cb s w)) = x_server_process s"
  by (simp add: stopped_cb_server)

lemma start_found_process:
  assumes "x_server_process server = None" and "command server = Some cmd"
    and "get_absolute_command env cmd = (Some ac, cs)"
  shows "x_server_process (fst (snd (x_server_local_start env server w)))
           = Some (forward_environment env ((start_new_process env server)
               \<lparr>p_command := Some (fst (assemble_command env ac
                   (server\<lparr>got_signal := False,
                           x_server_process := Some (start_new_process env server)\<rparr>)
                   (log_calls cs w)))\<rparr>))"
proof -
  obtain cmdline server1 w1 where a: "assemble_command env ac (server\<lparr>got_signal := False,
        x_server_process := Some (start_new_process env server)\<rparr>) (log_calls cs w)
     = (cmdline, server1, w1)"
    by (cases "assemble_command env ac (server\<lparr>got_signal := False,
        x_server_process := Some (start_new_process env server)\<rparr>) (log_calls cs w)") auto
  show ?thesis
    by (simp add: start_found [OF assms a refl] a)
qed

lemma start_found_trace:
  assumes "x_server_process server = None" and "command server = Some cmd"
    and "get_absolute_command env cmd = (Some ac, cs)"
    and "x_server_process (fst (snd (x_server_local_start env server w))) = Some p"
  shows "Process_start p \<in> set (trace (snd (snd (x_server_local_start env server w))))"
proof -
  obtain cmdline server1 w1 where a: "assemble_command env ac (server\<lparr>got_signal := False,
        x_server_process := Some (start_new_process env server)\<rparr>) (log_calls cs w)
     = (cmdline, server1, w1)"
    by (cases "assemble_command env ac (server\<lparr>got_signal := False,
        x_server_process := Some (start_new_process env server)\<rparr>) (log_calls cs w)") auto
  show ?thesis
    using assms(4)
    by (cases "process_start_result env")
       (auto simp: start_found [OF assms(1-3) a refl] stopped_cb_world log_call_def)
qed

text \<open>
  C9, as the code has it. When \<open>start\<close> gets as far as spawning (no process attached, a
  command set, its binary found), the process object has its environment cleared and is
  handed to \<open>process_start\<close>, and the child's environment is exactly: \<open>DISPLAY\<close>,
  \<open>LD_PRELOAD\<close>, \<open>LD_LIBRARY_PATH\<close>, \<open>PATH\<close> and \<open>LIGHTDM_TEST_ROOT\<close> as far as the
  parent has them, and, only when the parent has \<open>DISPLAY\<close>, \<open>XAUTHORITY\<close> with the
  parent's value or else <home>/.Xauthority. Nothing else crosses.
\<close>

theorem start_forwarded_environment:
  assumes "x_server_process server = None" and "command server = Some cmd"
    and "fst (get_absolute_command env cmd) = Some ac"
  shows "(\<exists>p. x_server_process (fst (snd (x_server_local_start env server w))) = Some p
            \<and> clear_environment p
            \<and> Process_start p \<in> set (trace (snd (snd (x_server_local_start env server w)))))
         \<and> started_child_env env server w = forwarded_env env"
proof -
  obtain cs where g: "get_absolute_command env cmd = (Some ac, cs)"
    using assms(3) by (cases "get_absolute_command env cmd") auto
  note p = start_found_process [OF assms(1,2) g, of w]
  have t: "Process_start (the (x_server_process (fst (snd (x_server_local_start env server w)))))
             \<in> set (trace (snd (snd (x_server_local_start env server w))))"
    by (rule start_found_trace [OF assms(1,2) g]) (simp add: p)
  show ?thesis
    using t by (simp add: p started_child_env_def child_environment_def forward_environment_env)
qed


lemma stopped_cb_trace:
  "trace (snd (stopped_cb s w))
     = trace w
         @ (if have_vt_ref s then [Vt_unref (sint (vt s))] else [])
         @ (case (authority s, authority_file s) of
              (Some a, Some path) \<Rightarrow> [Unlink path] | _ \<Rightarrow> [])
         @ [Display_server_stop]"
  by (simp add: stopped_cb_world)

text \<open>
  C8. With no process attached and a command whose first token \<open>g_find_program_in_path\<close>
  does not resolve, \<open>start\<close> returns failure after running \<open>stopped_cb\<close> on the server:
  the VT reference is dropped, the display number is released, a recorded authority file
  is unlinked, the base class's \<open>stop\<close> is chained, and \<open>process_start\<close> is not called.
\<close>

theorem start_binary_not_found:
  assumes "x_server_process server = None" and "command server = Some cmd"
    and "g_strsplit cmd (CHR '' '') 2 = t0 # ts" and "find_program_in_path env t0 = None"
  shows "fst (x_server_local_start env server w) = False
    \<and> snd (x_server_local_start env server w)
        = stopped_cb (server\<lparr>got_signal := False,
                             x_server_process := Some (start_new_process env server)\<rparr>) w
    \<and> \<not> have_vt_ref (fst (snd (x_server_local_start env server w)))
    \<and> display_numbers (snd (snd (x_server_local_start env server w)))
        = delete_first (display_number server) (display_numbers w)
    \<and> trace (snd (snd (x_server_local_start env server w)))
        = trace w
            @ (if have_vt_ref server then [Vt_unref (sint (vt server))] else [])
            @ (case (authority server, authority_file server) of
                 (Some a, Some path) \<Rightarrow> [Unlink path] | _ \<Rightarrow> [])
            @ [Display_server_stop]
    \<and> (\<forall>p. Process_start p \<notin> set (drop (length (trace w))
               (trace (snd (snd (x_server_local_start env server w))))))"
proof -
  have s: "x_server_local_start env server w
      = (False, stopped_cb (server\<lparr>got_signal := False,
                                   x_server_process := Some (start_new_process env server)\<rparr>) w)"
    using start_not_found [OF assms(1,2) get_absolute_command_unresolved [OF assms(3,4)], of w]
    by simp
  show ?thesis
    by (auto simp: s stopped_cb_server stopped_cb_world split: option.splits)
qed

lemma xorg_core_tokens: "g_strsplit ''Xorg -core'' (CHR '' '') 2 = [''Xorg'', ''-core'']"
  by (simp add: g_strsplit_def)

theorem start_binary_not_found_witness:
  "fst (x_server_local_start env_default server_xorg_core world2) = False
   \<and> display_numbers (snd (snd (x_server_local_start env_default server_xorg_core world2))) = []
   \<and> trace (snd (snd (x_server_local_start env_default server_xorg_core world2)))
       = [Vt_unref 7, Display_server_stop]"
proof -
  have a: "x_server_process server_xorg_core = None"
    and b: "command server_xorg_core = Some ''Xorg -core''"
    and f: "have_vt_ref server_xorg_core" "vt server_xorg_core = 7"
      "authority_file server_xorg_core = None" "display_number server_xorg_core = 2"
    by (simp_all add: server_xorg_core_def server_c6_def)
  have d: "find_program_in_path env_default ''Xorg'' = None"
    by (simp add: env_default_def)
  have w: "display_numbers world2 = [2]" "trace world2 = []"
    by (simp_all add: world2_def world0_def)
  note t = start_binary_not_found [OF a b xorg_core_tokens d, of world2]
  show ?thesis
    using t [THEN conjunct1] t [THEN conjunct2, THEN conjunct2]
    by (simp add: f w split: option.splits)
qed

lemma forwarded_env_nested:
  "forwarded_env env_nested ''DISPLAY'' = Some '':0''"
  "forwarded_env env_nested ''XAUTHORITY'' = Some ''/root/.Xauthority''"
  "forwarded_env env_nested ''HOME'' = None"
  by (simp_all add: forwarded_env_lookup env_nested_def env_default_def g_build_filename_def)

theorem start_forwarded_environment_witness:
  "started_child_env env_nested server_c6 world2 ''DISPLAY'' = Some '':0''
   \<and> started_child_env env_nested server_c6 world2 ''XAUTHORITY'' = Some ''/root/.Xauthority''
   \<and> started_child_env env_nested server_c6 world2 ''HOME'' = None"
proof -
  have a: "x_server_process server_c6 = None" and b: "command server_c6 = Some ''X''"
    by (simp_all add: server_c6_def)
  have f: "find_program_in_path env_nested ''X'' = Some ''/usr/bin/X''"
    by (simp add: env_nested_def env_default_def)
  have c: "fst (get_absolute_command env_nested ''X'') = Some ''/usr/bin/X''"
    by (simp add: get_absolute_command_X [OF f])
  show ?thesis
    using start_forwarded_environment [OF a b c, of world2, THEN conjunct2]
    by (simp add: forwarded_env_nested)
qed

text \<open>
  C9, as stated, fails: with \<open>XAUTHORITY\<close> set in the parent and \<open>DISPLAY\<close> not, the
  variable is in the whitelist and in the parent's environment, the server starts, and
  the child does not get it.
\<close>

theorem start_drops_xauthority:
  "spec_child_env env_xauth_only ''XAUTHORITY'' = Some ''/home/u/.Xauthority''
   \<and> fst (x_server_local_start env_xauth_only server_c6 world2)
   \<and> started_child_env env_xauth_only server_c6 world2 ''XAUTHORITY'' = None"
  by code_simp

lemma authority_path_c6:
  "g_build_filename (g_build_filename ''/run/lightdm'' ''root'') '':2'' = ''/run/lightdm/root/:2''"
  by (simp add: g_build_filename_def)

lemma assemble_command_c6:
  assumes "display_number server = 2" and "layout server = Some ''foo''"
    and "xdg_seat server = Some ''seat0''" and "\<not> allow_tcp server" and "vt server = 7"
    and "config_file server = None" and "xdmcp_server server = None"
    and "background server = None" and "add_args server = None"
    and "authority server = Some a" and "authority_file server = None"
    and "address server = '':2''" and "run_directory env = ''/run/lightdm''"
  shows "fst (assemble_command env path server w)
           = path @ '' :2 -layout foo -seat seat0 -auth /run/lightdm/root/:2 -nolisten tcp vt7 -novtswitch''"
  using assms
  by (simp add: assemble_command_def append_arg_def write_authority_file_def
      connection_args_def printf_d_2 printf_d_7 authority_path_c6 word_sle_eq Let_def)

text \<open>
  C6. For a server with command "X", display number 2, layout "foo", seat "seat0", TCP not
  allowed, VT 7, no configuration file, no XDMCP server, no background, and an authority
  whose file goes to /run/lightdm/root/:2, the command string given to the process is
  the absolute path of X followed by
  " :2 -layout foo -seat seat0 -auth /run/lightdm/root/:2 -nolisten tcp vt7 -novtswitch".
\<close>

theorem start_command_line:
  assumes "x_server_process server = None" and "command server = Some ''X''"
    and "display_number server = 2" and "layout server = Some ''foo''"
    and "xdg_seat server = Some ''seat0''" and "\<not> allow_tcp server" and "vt server = 7"
    and "config_file server = None" and "xdmcp_server server = None"
    and "background server = None" and "add_args server = None"
    and "authority server = Some a" and "authority_file server = None"
    and "address server = '':2''" and "run_directory env = ''/run/lightdm''"
    and "find_program_in_path env ''X'' = Some path"
  shows "started_command env server w
           = Some (path @ '' :2 -layout foo -seat seat0 -auth /run/lightdm/root/:2 -nolisten tcp vt7 -novtswitch'')"
proof -
  have "fst (assemble_command env path
               (server\<lparr>got_signal := False,
                       x_server_process := Some (start_new_process env server)\<rparr>) (log_calls [] w))
          = path @ '' :2 -layout foo -seat seat0 -auth /run/lightdm/root/:2 -nolisten tcp vt7 -novtswitch''"
    by (rule assemble_command_c6) (simp_all add: assms)
  then show ?thesis
    by (simp add: started_command_def
        start_found_process [OF assms(1,2) get_absolute_command_X [OF assms(16)]])
qed

theorem start_command_line_witness:
  "started_command env_default server_c6 world2
     = Some ''/usr/bin/X :2 -layout foo -seat seat0 -auth /run/lightdm/root/:2 -nolisten tcp vt7 -novtswitch''"
proof -
  have f: "find_program_in_path env_default ''X'' = Some ''/usr/bin/X''"
    and r: "run_directory env_default = ''/run/lightdm''"
    by (simp_all add: env_default_def)
  have "started_command env_default server_c6 world2
     = Some (''/usr/bin/X'' @ '' :2 -layout foo -seat seat0 -auth /run/lightdm/root/:2 -nolisten tcp vt7 -novtswitch'')"
    by (rule start_command_line [where a = "X_authority ''cookie''"])
       (simp_all add: server_c6_def f r)
  then show ?thesis by simp
qed

subsection \<open>Life cycle\<close>

lemma start_fresh_props:
  assumes "x_server_process s = None" and "command s = Some cmd" and "lifecycle_inv s"
  shows "x_server_process (fst (snd (x_server_local_start env s w))) \<noteq> None
       \<and> command (fst (snd (x_server_local_start env s w))) = command s
       \<and> authority (fst (snd (x_server_local_start env s w))) = authority s
       \<and> lifecycle_inv (fst (snd (x_server_local_start env s w)))"
proof -
  obtain ac cs where g: "get_absolute_command env cmd = (ac, cs)"
    by (cases "get_absolute_command env cmd") auto
  show ?thesis
  proof (cases ac)
    case None
    show ?thesis
      using assms(3)
      by (auto simp: start_not_found [OF assms(1,2) g [unfolded None]] stopped_cb_server
          lifecycle_inv_def assms(2))
  next
    case (Some a)
    obtain cmdline server1 w1 where a: "assemble_command env a (s\<lparr>got_signal := False,
          x_server_process := Some (start_new_process env s)\<rparr>) (log_calls cs w)
        = (cmdline, server1, w1)"
      by (cases "assemble_command env a (s\<lparr>got_signal := False,
          x_server_process := Some (start_new_process env s)\<rparr>) (log_calls cs w)") auto
    have s1: "server1 = fst (write_authority_file env (s\<lparr>got_signal := False,
          x_server_process := Some (start_new_process env s)\<rparr>) (log_calls cs w))"
      using assemble_command_server [of env a "s\<lparr>got_signal := False,
          x_server_process := Some (start_new_process env s)\<rparr>" "log_calls cs w"] a
      by simp
    show ?thesis
      using assms(3)
      by (cases "process_start_result env")
         (auto simp: start_found [OF assms(1,2) g [unfolded Some] a refl] s1
            write_authority_file_server stopped_cb_server lifecycle_inv_def assms(2)
            split: option.splits)
  qed
qed

lemma step_props:
  assumes "lifecycle_inv s"
  shows "lifecycle_inv (fst (step env ev (s, w)))
       \<and> command (fst (step env ev (s, w))) = command s
       \<and> authority (fst (step env ev (s, w))) = authority s
       \<and> (x_server_process (fst (step env ev (s, w))) \<noteq> None
            \<longleftrightarrow> x_server_process s \<noteq> None \<or> (ev = Ev_start \<and> command s \<noteq> None))"
proof (cases ev)
  case Ev_start
  show ?thesis
  proof (cases "x_server_process s")
    case (Some p)
    then show ?thesis
      using assms by (simp add: step_def Ev_start start_with_process)
  next
    case None
    note np = None
    show ?thesis
    proof (cases "command s")
      case None
      then show ?thesis
        using assms np
        by (simp add: step_def Ev_start start_without_command lifecycle_inv_def)
    next
      case (Some cmd)
      then show ?thesis
        using start_fresh_props [OF np Some assms, of env w]
        by (simp add: step_def Ev_start)
    qed
  qed
next
  case (Ev_got_signal n)
  then show ?thesis
    using assms
    by (cases "x_server_process s")
       (auto simp: step_def got_signal_cb_def lifecycle_inv_def)
next
  case Ev_stopped
  then show ?thesis
    using assms
    by (cases "x_server_process s")
       (auto simp: step_def stopped_cb_server lifecycle_inv_def)
qed

lemma run_props:
  assumes "lifecycle_inv s"
  shows "lifecycle_inv (fst (run env evs (s, w)))
       \<and> command (fst (run env evs (s, w))) = command s
       \<and> authority (fst (run env evs (s, w))) = authority s
       \<and> (x_server_process (fst (run env evs (s, w))) \<noteq> None
            \<longleftrightarrow> x_server_process s \<noteq> None \<or> (Ev_start \<in> set evs \<and> command s \<noteq> None))"
  using assms
proof (induction evs arbitrary: s w)
  case Nil
  then show ?case by simp
next
  case (Cons ev evs)
  obtain s1 w1 where st: "step env ev (s, w) = (s1, w1)"
    by (cases "step env ev (s, w)") auto
  note p = step_props [OF Cons.prems, of env ev w, unfolded st, simplified]
  note ih = Cons.IH [of s1 w1, OF p [THEN conjunct1]]
  show ?case
    using p ih by (auto simp: st)
qed

lemma run_append: "run env (xs @ ys) sw = run env ys (run env xs sw)"
  by (induction xs arbitrary: sw) simp_all

lemma start_fresh_window:
  assumes "x_server_process s = None" and "command s = Some cmd" and "authority_file s = None"
  shows "authority_file (fst (snd (x_server_local_start env s w))) \<noteq> None
           \<longleftrightarrow> fst (x_server_local_start env s w) \<and> authority s \<noteq> None"
proof -
  obtain ac cs where g: "get_absolute_command env cmd = (ac, cs)"
    by (cases "get_absolute_command env cmd") auto
  show ?thesis
  proof (cases ac)
    case None
    show ?thesis
      using assms(3)
      by (auto simp: start_not_found [OF assms(1,2) g [unfolded None]] stopped_cb_server)
  next
    case (Some a)
    obtain cmdline server1 w1 where a: "assemble_command env a (s\<lparr>got_signal := False,
          x_server_process := Some (start_new_process env s)\<rparr>) (log_calls cs w)
        = (cmdline, server1, w1)"
      by (cases "assemble_command env a (s\<lparr>got_signal := False,
          x_server_process := Some (start_new_process env s)\<rparr>) (log_calls cs w)") auto
    have s1: "server1 = fst (write_authority_file env (s\<lparr>got_signal := False,
          x_server_process := Some (start_new_process env s)\<rparr>) (log_calls cs w))"
      using assemble_command_server [of env a "s\<lparr>got_signal := False,
          x_server_process := Some (start_new_process env s)\<rparr>" "log_calls cs w"] a
      by simp
    show ?thesis
      using assms(3)
      by (cases "process_start_result env")
         (auto simp: start_found [OF assms(1,2) g [unfolded Some] a refl] s1
            write_authority_file_server stopped_cb_server split: option.splits)
  qed
qed

lemma step_window:
  assumes "window_inv s win"
  shows "window_inv (fst (step env ev (s, w)))
           (case ev of
              Ev_start \<Rightarrow> fst (x_server_local_start env s w) \<or> win
            | Ev_got_signal signum \<Rightarrow> win
            | Ev_stopped \<Rightarrow> False)"
proof -
  have i: "lifecycle_inv s" using assms by (simp add: window_inv_def)
  note p = step_props [OF i, of env ev w]
  show ?thesis
  proof (cases ev)
    case Ev_start
    show ?thesis
    proof (cases "x_server_process s")
      case (Some p')
      then show ?thesis
        using assms by (simp add: step_def Ev_start start_with_process window_inv_def)
    next
      case None
      note np = None
      then have nw: "\<not> win" and na: "authority_file s = None"
        using assms by (auto simp: window_inv_def lifecycle_inv_def)
      show ?thesis
      proof (cases "command s")
        case None
        then show ?thesis
          using assms np nw
          by (simp add: step_def Ev_start start_without_command window_inv_def
              lifecycle_inv_def)
      next
        case (Some cmd)
        show ?thesis
          using start_fresh_window [OF np Some na, of env w] p nw
          by (auto simp: step_def Ev_start window_inv_def Some)
      qed
    qed
  next
    case (Ev_got_signal n)
    then show ?thesis
      using assms
      by (cases "x_server_process s")
         (auto simp: step_def got_signal_cb_def window_inv_def lifecycle_inv_def)
  next
    case Ev_stopped
    then show ?thesis
      using assms
      by (cases "x_server_process s")
         (auto simp: step_def stopped_cb_server window_inv_def lifecycle_inv_def)
  qed
qed

lemma run_window:
  assumes "window_inv s win"
  shows "window_inv (fst (run env evs (s, w))) (window env evs (s, w) win)"
  using assms
proof (induction evs arbitrary: s w win)
  case Nil
  then show ?case by simp
next
  case (Cons ev evs)
  obtain s1 w1 where st: "step env ev (s, w) = (s1, w1)"
    by (cases "step env ev (s, w)") auto
  note p = step_window [OF Cons.prems, of env ev w, unfolded st, simplified]
  have e: "window env (ev # evs) (s, w) win
             = window env evs (s1, w1)
                 (case ev of
                    Ev_start \<Rightarrow> fst (x_server_local_start env s w) \<or> win
                  | Ev_got_signal signum \<Rightarrow> win
                  | Ev_stopped \<Rightarrow> False)"
    using st by (cases ev) simp_all
  have r: "run env (ev # evs) (s, w) = run env evs (s1, w1)"
    by (simp add: st)
  show ?case
    unfolding e r using Cons.IH [OF p, of w1] .
qed

lemma stopped_unlinks:
  assumes "lifecycle_inv s" and "authority_file s = Some path"
  shows "snd (step env Ev_stopped (s, w))
           = w\<lparr>display_numbers := delete_first (display_number s) (display_numbers w),
               trace := trace w
                 @ (if have_vt_ref s then [Vt_unref (sint (vt s))] else [])
                 @ [Unlink path, Display_server_stop]\<rparr>"
  using assms
  by (cases "x_server_process s"; cases "authority s")
     (auto simp: step_def stopped_cb_world lifecycle_inv_def)


text \<open>
  C7, as the code has it. For a server that has not been started (no process object,
  ready signal not seen, no authority file recorded) and every sequence of start,
  got-signal and stopped events: the process handle is non-null exactly when \<open>start\<close>
  has been called with a command set, and it stays non-null after \<open>stopped\<close> (nothing
  but \<open>finalize\<close> clears it); \<open>got_signal\<close> can be true only while the handle is
  non-null; an authority file is recorded only while the handle is non-null, and none
  is recorded after a stopped event. More precisely, an authority file is recorded
  exactly between a start that returned \<open>TRUE\<close> and the next stopped event, for a server
  that has an authority; and the stopped event that ends the window unlinks that file
  after dropping the VT reference and before chaining the base class's \<open>stop\<close>.
\<close>

theorem lifecycle:
  assumes "x_server_process server = None" and "\<not> got_signal server"
    and "authority_file server = None"
  shows "(x_server_process (fst (run env evs (server, w))) \<noteq> None
            \<longleftrightarrow> Ev_start \<in> set evs \<and> command server \<noteq> None)
       \<and> (got_signal (fst (run env evs (server, w)))
            \<longrightarrow> x_server_process (fst (run env evs (server, w))) \<noteq> None)
       \<and> (authority_file (fst (run env evs (server, w))) \<noteq> None
            \<longrightarrow> x_server_process (fst (run env evs (server, w))) \<noteq> None)
       \<and> authority_file (fst (run env (evs @ [Ev_stopped]) (server, w))) = None
       \<and> (authority_file (fst (run env evs (server, w))) \<noteq> None
            \<longleftrightarrow> window env evs (server, w) False \<and> authority server \<noteq> None)
       \<and> (\<forall>path. authority_file (fst (run env evs (server, w))) = Some path
            \<longrightarrow> trace (snd (run env (evs @ [Ev_stopped]) (server, w)))
                  = trace (snd (run env evs (server, w)))
                      @ (if have_vt_ref (fst (run env evs (server, w)))
                         then [Vt_unref (sint (vt (fst (run env evs (server, w)))))] else [])
                      @ [Unlink path, Display_server_stop])"
proof -
  have i: "lifecycle_inv server"
    using assms by (simp add: lifecycle_inv_def)
  have j: "window_inv server False"
    using assms i by (simp add: window_inv_def)
  note r = run_props [OF i, of env evs w]
  note rw = run_window [OF j, of env evs w]
  obtain s1 w1 where st: "run env evs (server, w) = (s1, w1)"
    by (cases "run env evs (server, w)") auto
  have i1: "lifecycle_inv s1" using r by (simp add: st)
  have a1: "authority s1 = authority server" using r by (simp add: st)
  have last: "authority_file (fst (step env Ev_stopped (s1, w1))) = None"
    using i1
    by (cases "x_server_process s1") (auto simp: step_def stopped_cb_server lifecycle_inv_def)
  have win: "authority_file s1 \<noteq> None
               \<longleftrightarrow> window env evs (server, w) False \<and> authority server \<noteq> None"
    using rw by (simp add: st window_inv_def a1)
  have unl: "trace (snd (step env Ev_stopped (s1, w1)))
               = trace w1 @ (if have_vt_ref s1 then [Vt_unref (sint (vt s1))] else [])
                   @ [Unlink path, Display_server_stop]"
    if "authority_file s1 = Some path" for path
    by (simp add: stopped_unlinks [OF i1 that])
  have first: "(x_server_process s1 \<noteq> None \<longleftrightarrow> Ev_start \<in> set evs \<and> command server \<noteq> None)
       \<and> (got_signal s1 \<longrightarrow> x_server_process s1 \<noteq> None)
       \<and> (authority_file s1 \<noteq> None \<longrightarrow> x_server_process s1 \<noteq> None)"
    using r i1 assms(1) by (auto simp: st lifecycle_inv_def)
  have ra: "run env (evs @ [Ev_stopped]) (server, w) = step env Ev_stopped (s1, w1)"
    by (simp add: run_append st)
  show ?thesis
    unfolding ra st fst_conv snd_conv using first last win unl by blast
qed

lemma window_open:
  "window env_default [Ev_start, Ev_got_signal SIGUSR1] (server_c6, world2) False"
  by code_simp

lemma window_closed:
  "\<not> window env_default [Ev_start, Ev_got_signal SIGUSR1, Ev_stopped, Ev_got_signal SIGUSR1]
       (server_c6, world2) False"
  by code_simp

lemma run_c6_open:
  "authority_file (fst (run env_default [Ev_start, Ev_got_signal SIGUSR1] (server_c6, world2)))
     = Some ''/run/lightdm/root/:2''"
  "have_vt_ref (fst (run env_default [Ev_start, Ev_got_signal SIGUSR1] (server_c6, world2)))"
  "vt (fst (run env_default [Ev_start, Ev_got_signal SIGUSR1] (server_c6, world2))) = 7"
  by code_simp+

theorem lifecycle_witness:
  "x_server_process (fst (run env_default [Ev_start, Ev_got_signal SIGUSR1]
       (server_c6, world2))) \<noteq> None
   \<and> authority_file (fst (run env_default ([Ev_start, Ev_got_signal SIGUSR1] @ [Ev_stopped])
       (server_c6, world2))) = None
   \<and> authority_file (fst (run env_default [Ev_start, Ev_got_signal SIGUSR1]
       (server_c6, world2))) \<noteq> None
   \<and> authority_file (fst (run env_default
       [Ev_start, Ev_got_signal SIGUSR1, Ev_stopped, Ev_got_signal SIGUSR1]
       (server_c6, world2))) = None
   \<and> trace (snd (run env_default ([Ev_start, Ev_got_signal SIGUSR1] @ [Ev_stopped])
       (server_c6, world2)))
       = trace (snd (run env_default [Ev_start, Ev_got_signal SIGUSR1] (server_c6, world2)))
           @ [Vt_unref 7, Unlink ''/run/lightdm/root/:2'', Display_server_stop]"
proof -
  have a: "x_server_process server_c6 = None" and b: "\<not> got_signal server_c6"
    and c: "authority_file server_c6 = None" and d: "command server_c6 = Some ''X''"
    and e: "authority server_c6 \<noteq> None"
    by (simp_all add: server_c6_def)
  note t = lifecycle [OF a b c, of env_default "[Ev_start, Ev_got_signal SIGUSR1]" world2]
  note u = lifecycle [OF a b c, of env_default
      "[Ev_start, Ev_got_signal SIGUSR1, Ev_stopped, Ev_got_signal SIGUSR1]" world2]
  have t1: "x_server_process (fst (run env_default [Ev_start, Ev_got_signal SIGUSR1]
       (server_c6, world2))) \<noteq> None"
    using t [THEN conjunct1] by (simp add: d)
  note t4 = t [THEN conjunct2, THEN conjunct2, THEN conjunct2, THEN conjunct1]
  have t5: "authority_file (fst (run env_default [Ev_start, Ev_got_signal SIGUSR1]
       (server_c6, world2))) \<noteq> None"
    using t [THEN conjunct2, THEN conjunct2, THEN conjunct2, THEN conjunct2, THEN conjunct1]
      window_open e by blast
  have u5: "authority_file (fst (run env_default
       [Ev_start, Ev_got_signal SIGUSR1, Ev_stopped, Ev_got_signal SIGUSR1]
       (server_c6, world2))) = None"
    using u [THEN conjunct2, THEN conjunct2, THEN conjunct2, THEN conjunct2, THEN conjunct1]
      window_closed by blast
  have t6: "trace (snd (run env_default ([Ev_start, Ev_got_signal SIGUSR1] @ [Ev_stopped])
       (server_c6, world2)))
       = trace (snd (run env_default [Ev_start, Ev_got_signal SIGUSR1] (server_c6, world2)))
           @ [Vt_unref 7, Unlink ''/run/lightdm/root/:2'', Display_server_stop]"
    using t [THEN conjunct2, THEN conjunct2, THEN conjunct2, THEN conjunct2, THEN conjunct2,
        THEN spec, THEN mp, OF run_c6_open(1)]
    by (simp only: run_c6_open if_True sint_numeral) simp
  show ?thesis
    using t1 t4 t5 u5 t6 by blast
qed

text \<open>
  C7, as stated, fails: after a successful start, the ready signal and the stopped
  event, the server is outside the window, yet the process handle is still non-null and
  \<open>got_signal\<close> is still true.
\<close>

theorem process_and_signal_survive_stopped:
  "x_server_process (fst (run env_default [Ev_start, Ev_got_signal SIGUSR1, Ev_stopped]
       (server_c6, world2))) \<noteq> None
   \<and> got_signal (fst (run env_default [Ev_start, Ev_got_signal SIGUSR1, Ev_stopped]
       (server_c6, world2)))"
  by code_simp

subsection \<open>TCP flags in the command string\<close>

lemma sublist_across_space:
  assumes "CHR '' '' \<notin> set u" and "CHR '' '' \<notin> set v"
  shows "sublist (u @ CHR '' '' # v) (x @ CHR '' '' # y)
           \<longleftrightarrow> sublist (u @ CHR '' '' # v) x \<or> sublist (u @ CHR '' '' # v) y
                \<or> (suffix u x \<and> prefix v y)"
proof
  assume "sublist (u @ CHR '' '' # v) (x @ CHR '' '' # y)"
  then consider "sublist (u @ CHR '' '' # v) x" | "sublist (u @ CHR '' '' # v) (CHR '' '' # y)"
    | w1 w2 where "u @ CHR '' '' # v = w1 @ w2" "suffix w1 x" "prefix w2 (CHR '' '' # y)"
    by (auto simp: sublist_append)
  then show "sublist (u @ CHR '' '' # v) x \<or> sublist (u @ CHR '' '' # v) y
                \<or> (suffix u x \<and> prefix v y)"
  proof cases
    case 1
    then show ?thesis by simp
  next
    case 2
    then consider "prefix (u @ CHR '' '' # v) (CHR '' '' # y)" | "sublist (u @ CHR '' '' # v) y"
      by (auto simp: sublist_Cons_right)
    then show ?thesis
    proof cases
      case 1
      then have "u = []" using assms(1) by (cases u) auto
      with 1 show ?thesis by simp
    next
      case 2
      then show ?thesis by simp
    qed
  next
    case 3
    show ?thesis
    proof (cases w2)
      case Nil
      then have "suffix (u @ CHR '' '' # v) x" using 3 by simp
      then show ?thesis by (simp add: suffix_imp_sublist)
    next
      case (Cons c w2')
      then have c: "c = CHR '' ''" and p: "prefix w2' y" using 3(3) by auto
      have "u @ CHR '' '' # v = w1 @ CHR '' '' # w2'" using 3(1) Cons c by simp
      then have "u = w1 \<and> v = w2'"
        using assms by (simp add: append_Cons_eq_iff)
      then show ?thesis using 3(2) p by simp
    qed
  qed
next
  assume "sublist (u @ CHR '' '' # v) x \<or> sublist (u @ CHR '' '' # v) y
                \<or> (suffix u x \<and> prefix v y)"
  then show "sublist (u @ CHR '' '' # v) (x @ CHR '' '' # y)"
  proof (elim disjE conjE)
    assume "sublist (u @ CHR '' '' # v) x"
    then show ?thesis by (auto simp: sublist_append)
  next
    assume "sublist (u @ CHR '' '' # v) y"
    then show ?thesis by (auto simp: sublist_append sublist_Cons_right)
  next
    assume "suffix u x" "prefix v y"
    then obtain a b where "x = a @ u" "y = v @ b" by (auto simp: suffix_def prefix_def)
    then have "x @ CHR '' '' # y = a @ (u @ CHR '' '' # v) @ b" by simp
    then show ?thesis unfolding sublist_def by blast
  qed
qed

lemma listen_split:
  "sublist ''-listen tcp'' (x @ CHR '' '' # y)
     \<longleftrightarrow> sublist ''-listen tcp'' x \<or> sublist ''-listen tcp'' y
          \<or> (suffix ''-listen'' x \<and> prefix ''tcp'' y)"
  using sublist_across_space [of "''-listen''" "''tcp''" x y] by simp

lemma nolisten_split:
  "sublist ''-nolisten tcp'' (x @ CHR '' '' # y)
     \<longleftrightarrow> sublist ''-nolisten tcp'' x \<or> sublist ''-nolisten tcp'' y
          \<or> (suffix ''-nolisten'' x \<and> prefix ''tcp'' y)"
  using sublist_across_space [of "''-nolisten''" "''tcp''" x y] by simp

lemma show_nat_digits: "set (show_nat n) \<subseteq> set ''0123456789''"
proof (induction n rule: show_nat.induct)
  case (1 n)
  have d: "digit_char m \<in> set ''0123456789''" for m
    unfolding digit_char_def by (rule nth_mem) simp
  show ?case
    using 1 d by (subst show_nat.simps) auto
qed

lemma printf_d_no_l: "CHR ''l'' \<notin> set (printf_d n)"
  using show_nat_digits by (auto simp: printf_d_def show_int_def)

lemma printf_d_no_flag [simp]:
  "\<not> sublist ''-listen tcp'' (printf_d n)"
  "\<not> sublist ''-nolisten tcp'' (printf_d n)"
  "\<not> suffix ''-listen'' (printf_d n)"
  "\<not> suffix ''-nolisten'' (printf_d n)"
  using printf_d_no_l [of n]
  by (auto dest!: set_mono_sublist set_mono_suffix)


lemma append_arg_listen:
  assumes "flag \<in> {'' -config '', '' -layout '', '' -seat '', '' -auth '', '' -background ''}"
  shows "sublist ''-listen tcp'' (append_arg flag x cmd)
           \<longleftrightarrow> sublist ''-listen tcp'' cmd \<or> (\<exists>v. x = Some v \<and> sublist ''-listen tcp'' v)"
  using assms
  by (cases x) (auto simp: append_arg_def listen_split sublist_Cons_right)

lemma append_arg_nolisten:
  assumes "flag \<in> {'' -config '', '' -layout '', '' -seat '', '' -auth '', '' -background ''}"
  shows "sublist ''-nolisten tcp'' (append_arg flag x cmd)
           \<longleftrightarrow> sublist ''-nolisten tcp'' cmd \<or> (\<exists>v. x = Some v \<and> sublist ''-nolisten tcp'' v)"
  using assms
  by (cases x) (auto simp: append_arg_def nolisten_split sublist_Cons_right)


lemma display_arg_flags:
  "sublist ''-listen tcp'' (ac @ '' :'' @ printf_d n) \<longleftrightarrow> sublist ''-listen tcp'' ac"
  "sublist ''-nolisten tcp'' (ac @ '' :'' @ printf_d n) \<longleftrightarrow> sublist ''-nolisten tcp'' ac"
  by (simp_all add: listen_split nolisten_split sublist_Cons_right)

lemma vt_arg_flags:
  "sublist ''-listen tcp'' (cmd @ '' vt'' @ printf_d n @ '' -novtswitch'')
     \<longleftrightarrow> sublist ''-listen tcp'' cmd"
  "sublist ''-nolisten tcp'' (cmd @ '' vt'' @ printf_d n @ '' -novtswitch'')
     \<longleftrightarrow> sublist ''-nolisten tcp'' cmd"
  by (simp_all add: listen_split nolisten_split sublist_Cons_right)

lemma connection_args_listen:
  "sublist ''-listen tcp'' (cmd @ fst (connection_args env s wd))
     \<longleftrightarrow> sublist ''-listen tcp'' cmd
          \<or> (case xdmcp_server s of
                Some host \<Rightarrow>
                  sublist ''-listen tcp'' host
                  \<or> (\<exists>k. xdmcp_key s = Some k \<and> sublist ''-listen tcp'' k)
              | None \<Rightarrow> allow_tcp s \<and> 0 \<le>s fst (x_server_local_version_compare env wd 1 17))"
proof (cases "xdmcp_server s")
  case None
  then show ?thesis
    by (cases "x_server_local_version_compare env wd 1 17")
       (simp add: connection_args_def listen_split sublist_Cons_right)
next
  case (Some host)
  then show ?thesis
    by (cases "xdmcp_key s")
       (simp_all add: connection_args_def listen_split sublist_Cons_right)
qed

lemma connection_args_nolisten:
  "sublist ''-nolisten tcp'' (cmd @ fst (connection_args env s wd))
     \<longleftrightarrow> sublist ''-nolisten tcp'' cmd
          \<or> (case xdmcp_server s of
                Some host \<Rightarrow>
                  sublist ''-nolisten tcp'' host
                  \<or> (\<exists>k. xdmcp_key s = Some k \<and> sublist ''-nolisten tcp'' k)
              | None \<Rightarrow> \<not> allow_tcp s)"
proof (cases "xdmcp_server s")
  case None
  then show ?thesis
    by (cases "x_server_local_version_compare env wd 1 17")
       (simp add: connection_args_def nolisten_split sublist_Cons_right)
next
  case (Some host)
  then show ?thesis
    by (cases "xdmcp_key s")
       (simp_all add: connection_args_def nolisten_split sublist_Cons_right)
qed


lemma version_compare_cong:
  assumes "version w = version w'" and "version_major w = version_major w'"
    and "version_minor w = version_minor w'"
  shows "fst (x_server_local_version_compare env w a b)
           = fst (x_server_local_version_compare env w' a b)"
  using assms
  by (simp add: x_server_local_version_compare_def x_server_local_get_version_def Let_def
      split: option.splits prod.splits)

lemma log_calls_version [simp]:
  "version (log_calls cs w) = version w"
  "version_major (log_calls cs w) = version_major w"
  "version_minor (log_calls cs w) = version_minor w"
  by (simp_all add: log_calls_def)

lemma write_authority_file_version [simp]:
  "version (snd (write_authority_file env s w)) = version w"
  "version_major (snd (write_authority_file env s w)) = version_major w"
  "version_minor (snd (write_authority_file env s w)) = version_minor w"
  by (simp_all add: write_authority_file_def log_call_def Let_def split: option.splits)

lemma write_authority_file_fields [simp]:
  "config_file (fst (write_authority_file env s w)) = config_file s"
  "layout (fst (write_authority_file env s w)) = layout s"
  "xdg_seat (fst (write_authority_file env s w)) = xdg_seat s"
  "xdmcp_server (fst (write_authority_file env s w)) = xdmcp_server s"
  "xdmcp_key (fst (write_authority_file env s w)) = xdmcp_key s"
  "allow_tcp (fst (write_authority_file env s w)) = allow_tcp s"
  "background (fst (write_authority_file env s w)) = background s"
  "add_args (fst (write_authority_file env s w)) = add_args s"
  by (simp_all add: write_authority_file_server split: option.splits)

lemma write_authority_file_path:
  "authority_file (fst (write_authority_file env (s\<lparr>got_signal := g, x_server_process := p\<rparr>) w))
     = authority_file (fst (write_authority_file env s w'))"
  by (simp add: write_authority_file_server split: option.splits)

lemma assemble_command_flags:
  assumes "add_args s = None" and "flag = ''-listen tcp'' \<or> flag = ''-nolisten tcp''"
  shows "sublist flag (fst (assemble_command env ac s w))
     \<longleftrightarrow> sublist flag ac
          \<or> (\<exists>v. config_file s = Some v \<and> sublist flag v)
          \<or> (\<exists>v. layout s = Some v \<and> sublist flag v)
          \<or> (\<exists>v. xdg_seat s = Some v \<and> sublist flag v)
          \<or> (\<exists>v. authority_file (fst (write_authority_file env s w)) = Some v \<and> sublist flag v)
          \<or> (\<exists>v. xdmcp_server s = Some v \<and> sublist flag v)
          \<or> (\<exists>v. xdmcp_server s \<noteq> None \<and> xdmcp_key s = Some v \<and> sublist flag v)
          \<or> (\<exists>v. background s = Some v \<and> sublist flag v)
          \<or> (xdmcp_server s = None
               \<and> (if flag = ''-listen tcp''
                   then allow_tcp s
                        \<and> 0 \<le>s fst (x_server_local_version_compare env w 1 17)
                   else \<not> allow_tcp s))"
proof -
  define s1 where "s1 = fst (write_authority_file env s w)"
  define w1 where "w1 = snd (write_authority_file env s w)"
  define c1 where "c1 = ac @ '' :'' @ printf_d (display_number s)"
  define c2 where "c2 = append_arg '' -config '' (config_file s) c1"
  define c3 where "c3 = append_arg '' -layout '' (layout s) c2"
  define c4 where "c4 = append_arg '' -seat '' (xdg_seat s) c3"
  define c5 where "c5 = append_arg '' -auth '' (authority_file s1) c4"
  define c6 where "c6 = c5 @ fst (connection_args env s1 w1)"
  define c7 where "c7 = (if 0 \<le>s vt s1 then c6 @ '' vt'' @ printf_d (vt s1) @ '' -novtswitch''
                         else c6)"
  define c8 where "c8 = append_arg '' -background '' (background s1) c7"
  have cmd: "fst (assemble_command env ac s w) = c8"
    using assms(1)
    by (simp add: assemble_command_def Let_def split_beta c8_def c7_def c6_def c5_def c4_def
        c3_def c2_def c1_def s1_def w1_def)
  have v: "fst (x_server_local_version_compare env w1 1 17)
             = fst (x_server_local_version_compare env w 1 17)"
    by (rule version_compare_cong) (simp_all add: w1_def)
  have f: "xdmcp_server s1 = xdmcp_server s" "xdmcp_key s1 = xdmcp_key s"
    "allow_tcp s1 = allow_tcp s" "background s1 = background s"
    by (simp_all add: s1_def)
  from assms(2) show ?thesis
  proof
    assume fl: "flag = ''-listen tcp''"
    have l1: "sublist ''-listen tcp'' c1 \<longleftrightarrow> sublist ''-listen tcp'' ac"
      unfolding c1_def by (rule display_arg_flags)
    have l2: "sublist ''-listen tcp'' c2 \<longleftrightarrow> sublist ''-listen tcp'' c1
                \<or> (\<exists>v. config_file s = Some v \<and> sublist ''-listen tcp'' v)"
      unfolding c2_def by (rule append_arg_listen) simp
    have l3: "sublist ''-listen tcp'' c3 \<longleftrightarrow> sublist ''-listen tcp'' c2
                \<or> (\<exists>v. layout s = Some v \<and> sublist ''-listen tcp'' v)"
      unfolding c3_def by (rule append_arg_listen) simp
    have l4: "sublist ''-listen tcp'' c4 \<longleftrightarrow> sublist ''-listen tcp'' c3
                \<or> (\<exists>v. xdg_seat s = Some v \<and> sublist ''-listen tcp'' v)"
      unfolding c4_def by (rule append_arg_listen) simp
    have l5: "sublist ''-listen tcp'' c5 \<longleftrightarrow> sublist ''-listen tcp'' c4
                \<or> (\<exists>v. authority_file s1 = Some v \<and> sublist ''-listen tcp'' v)"
      unfolding c5_def by (rule append_arg_listen) simp
    have l6: "sublist ''-listen tcp'' c6 \<longleftrightarrow> sublist ''-listen tcp'' c5
                \<or> (case xdmcp_server s of
                      Some host \<Rightarrow>
                        sublist ''-listen tcp'' host
                        \<or> (\<exists>k. xdmcp_key s = Some k \<and> sublist ''-listen tcp'' k)
                    | None \<Rightarrow> allow_tcp s
                        \<and> 0 \<le>s fst (x_server_local_version_compare env w 1 17))"
      unfolding c6_def connection_args_listen by (simp add: f v split: option.split)
    have l7: "sublist ''-listen tcp'' c7 \<longleftrightarrow> sublist ''-listen tcp'' c6"
      unfolding c7_def using vt_arg_flags(1) [of c6 "vt s1"] by simp
    have l8: "sublist ''-listen tcp'' c8 \<longleftrightarrow> sublist ''-listen tcp'' c7
                \<or> (\<exists>v. background s = Some v \<and> sublist ''-listen tcp'' v)"
      unfolding c8_def f(4) by (rule append_arg_listen) simp
    show ?thesis
      unfolding cmd fl l8 l7 l6 l5 l4 l3 l2 l1 s1_def
      by (cases "xdmcp_server s") auto
  next
    assume fl: "flag = ''-nolisten tcp''"
    have l1: "sublist ''-nolisten tcp'' c1 \<longleftrightarrow> sublist ''-nolisten tcp'' ac"
      unfolding c1_def by (rule display_arg_flags)
    have l2: "sublist ''-nolisten tcp'' c2 \<longleftrightarrow> sublist ''-nolisten tcp'' c1
                \<or> (\<exists>v. config_file s = Some v \<and> sublist ''-nolisten tcp'' v)"
      unfolding c2_def by (rule append_arg_nolisten) simp
    have l3: "sublist ''-nolisten tcp'' c3 \<longleftrightarrow> sublist ''-nolisten tcp'' c2
                \<or> (\<exists>v. layout s = Some v \<and> sublist ''-nolisten tcp'' v)"
      unfolding c3_def by (rule append_arg_nolisten) simp
    have l4: "sublist ''-nolisten tcp'' c4 \<longleftrightarrow> sublist ''-nolisten tcp'' c3
                \<or> (\<exists>v. xdg_seat s = Some v \<and> sublist ''-nolisten tcp'' v)"
      unfolding c4_def by (rule append_arg_nolisten) simp
    have l5: "sublist ''-nolisten tcp'' c5 \<longleftrightarrow> sublist ''-nolisten tcp'' c4
                \<or> (\<exists>v. authority_file s1 = Some v \<and> sublist ''-nolisten tcp'' v)"
      unfolding c5_def by (rule append_arg_nolisten) simp
    have l6: "sublist ''-nolisten tcp'' c6 \<longleftrightarrow> sublist ''-nolisten tcp'' c5
                \<or> (case xdmcp_server s of
                      Some host \<Rightarrow>
                        sublist ''-nolisten tcp'' host
                        \<or> (\<exists>k. xdmcp_key s = Some k \<and> sublist ''-nolisten tcp'' k)
                    | None \<Rightarrow> \<not> allow_tcp s)"
      unfolding c6_def connection_args_nolisten by (simp add: f split: option.split)
    have l7: "sublist ''-nolisten tcp'' c7 \<longleftrightarrow> sublist ''-nolisten tcp'' c6"
      unfolding c7_def using vt_arg_flags(2) [of c6 "vt s1"] by simp
    have l8: "sublist ''-nolisten tcp'' c8 \<longleftrightarrow> sublist ''-nolisten tcp'' c7
                \<or> (\<exists>v. background s = Some v \<and> sublist ''-nolisten tcp'' v)"
      unfolding c8_def f(4) by (rule append_arg_nolisten) simp
    show ?thesis
      unfolding cmd fl l8 l7 l6 l5 l4 l3 l2 l1 s1_def
      by (cases "xdmcp_server s") auto
  qed
qed


lemma command_contains_assembled:
  assumes "x_server_process server = None" and "command server = Some cmd"
    and "get_absolute_command env cmd = (Some ac, cs)"
  shows "command_contains env server w flag
           \<longleftrightarrow> sublist flag (fst (assemble_command env ac
                 (server\<lparr>got_signal := False,
                         x_server_process := Some (start_new_process env server)\<rparr>)
                 (log_calls cs w)))"
  by (simp add: command_contains_def started_command_def start_found_process [OF assms])

text \<open>
  C5, as the code has it. The strings that \<open>start\<close> pastes into the command (the
  resolved command with its own arguments, the configuration file, the layout, the
  seat, the authority file path, the XDMCP host and key, the background) are copied as
  they are. When none of them contains "-listen tcp" or "-nolisten tcp" and the class
  has no \<open>add_args\<close> hook, the command string that \<open>start\<close> builds contains
  "-listen tcp" iff \<open>allow_tcp\<close> is true, \<open>xdmcp_server\<close> is unset and
  \<open>x_server_local_version_compare (1, 17)\<close> is not negative; it contains
  "-nolisten tcp" iff \<open>allow_tcp\<close> is false and \<open>xdmcp_server\<close> is unset; it never
  contains both; and with \<open>xdmcp_server\<close> set it contains neither.
\<close>

theorem start_tcp_flags:
  assumes "x_server_process server = None" and "command server = Some cmd"
    and "fst (get_absolute_command env cmd) = Some ac" and "add_args server = None"
    and "\<forall>s \<in> set (pasted_strings env server ac).
           \<not> sublist ''-listen tcp'' s \<and> \<not> sublist ''-nolisten tcp'' s"
  shows "(command_contains env server w ''-listen tcp''
            \<longleftrightarrow> allow_tcp server \<and> xdmcp_server server = None
                 \<and> 0 \<le>s fst (x_server_local_version_compare env w 1 17))
       \<and> (command_contains env server w ''-nolisten tcp''
            \<longleftrightarrow> \<not> allow_tcp server \<and> xdmcp_server server = None)
       \<and> \<not> (command_contains env server w ''-listen tcp''
              \<and> command_contains env server w ''-nolisten tcp'')
       \<and> (xdmcp_server server \<noteq> None
            \<longrightarrow> \<not> command_contains env server w ''-listen tcp''
                \<and> \<not> command_contains env server w ''-nolisten tcp'')"
proof -
  obtain cs where g: "get_absolute_command env cmd = (Some ac, cs)"
    using assms(3) by (cases "get_absolute_command env cmd") auto
  define s0 where "s0 = server\<lparr>got_signal := False,
      x_server_process := Some (start_new_process env server)\<rparr>"
  have a0: "add_args s0 = None" using assms(4) by (simp add: s0_def)
  have af: "authority_file (fst (write_authority_file env s0 (log_calls cs w)))
              = authority_file (fst (write_authority_file env server world0))"
    unfolding s0_def by (rule write_authority_file_path)
  have vc: "fst (x_server_local_version_compare env (log_calls cs w) 1 17)
              = fst (x_server_local_version_compare env w 1 17)"
    by (rule version_compare_cong) simp_all
  have clean: "\<not> sublist flag ac"
      "\<And>v. config_file server = Some v \<Longrightarrow> \<not> sublist flag v"
      "\<And>v. layout server = Some v \<Longrightarrow> \<not> sublist flag v"
      "\<And>v. xdg_seat server = Some v \<Longrightarrow> \<not> sublist flag v"
      "\<And>v. authority_file (fst (write_authority_file env server world0)) = Some v
             \<Longrightarrow> \<not> sublist flag v"
      "\<And>v. xdmcp_server server = Some v \<Longrightarrow> \<not> sublist flag v"
      "\<And>v. xdmcp_key server = Some v \<Longrightarrow> \<not> sublist flag v"
      "\<And>v. background server = Some v \<Longrightarrow> \<not> sublist flag v"
    if "flag = ''-listen tcp'' \<or> flag = ''-nolisten tcp''" for flag
    using assms(5) that by (auto simp: pasted_strings_def opt_list_def)
  have main: "command_contains env server w flag
      \<longleftrightarrow> xdmcp_server server = None
          \<and> (if flag = ''-listen tcp''
              then allow_tcp server \<and> 0 \<le>s fst (x_server_local_version_compare env w 1 17)
              else \<not> allow_tcp server)"
    if fl: "flag = ''-listen tcp'' \<or> flag = ''-nolisten tcp''" for flag
    unfolding command_contains_assembled [OF assms(1,2) g] s0_def [symmetric]
      assemble_command_flags [OF a0 fl] af vc
    using clean [OF fl] by (auto simp: s0_def)
  show ?thesis
    using main [of "''-listen tcp''"] main [of "''-nolisten tcp''"] by auto
qed

lemma pasted_strings_allow_tcp:
  "\<forall>s \<in> set (pasted_strings env_x120 server_allow_tcp ''/usr/bin/X'').
      \<not> sublist ''-listen tcp'' s \<and> \<not> sublist ''-nolisten tcp'' s"
  by code_simp

lemma version_compare_x120:
  "0 \<le>s fst (x_server_local_version_compare env_x120 world2 1 17)"
  by code_simp

theorem start_tcp_flags_witness:
  "command_contains env_x120 server_allow_tcp world2 ''-listen tcp''
   \<and> \<not> command_contains env_x120 server_allow_tcp world2 ''-nolisten tcp''"
proof -
  have a: "x_server_process server_allow_tcp = None"
    and b: "command server_allow_tcp = Some ''X''"
    and d: "add_args server_allow_tcp = None"
    and e: "allow_tcp server_allow_tcp" "xdmcp_server server_allow_tcp = None"
    by (simp_all add: server_allow_tcp_def server_c6_def)
  have f: "find_program_in_path env_x120 ''X'' = Some ''/usr/bin/X''"
    by (simp add: env_x120_def env_default_def)
  have c: "fst (get_absolute_command env_x120 ''X'') = Some ''/usr/bin/X''"
    by (simp add: get_absolute_command_X [OF f])
  show ?thesis
    using start_tcp_flags [OF a b c d pasted_strings_allow_tcp, of world2]
      version_compare_x120
    by (simp add: e)
qed

text \<open>
  C5, as stated, fails: with the configured command "X -nolisten tcp", \<open>allow_tcp\<close>
  true, no XDMCP server and an X server of version 1.20, the command string contains
  both "-listen tcp" and "-nolisten tcp".
\<close>

theorem start_command_has_both_flags:
  "allow_tcp server_tcp \<and> xdmcp_server server_tcp = None
   \<and> command_contains env_x120 server_tcp world2 ''-listen tcp''
   \<and> command_contains env_x120 server_tcp world2 ''-nolisten tcp''"
  by code_simp

end
